theory Spec2Isabelle
  imports Main "HOL-Library.Sublist"
begin

section \<open>JavaScript values shared by the translators\<close>

text \<open>
  Strings are character lists. An optional string property is a \<open>string option\<close>;
  JavaScript's truthiness test on it (\<open>if (x)\<close>, \<open>x || y\<close>) holds exactly when the
  property is present and not the empty string.
\<close>

fun truthy :: "string option \<Rightarrow> bool" where
  "truthy None = False"
| "truthy (Some s) = (s \<noteq> [])"

text \<open>The string of an optional property; the translators read it where the property is truthy.\<close>

fun value_of :: "string option \<Rightarrow> string" where
  "value_of None = []"
| "value_of (Some s) = s"

definition startsWith :: "string \<Rightarrow> string \<Rightarrow> bool" where
  "startsWith s p = prefix p s"

definition digit_char :: "nat \<Rightarrow> char" where
  "digit_char d = ''0123456789'' ! (d mod 10)"

text \<open>Decimal rendering of a non-negative integer, as a template literal does it.\<close>

function show_nat :: "nat \<Rightarrow> string" where
  "show_nat n = (if n < 10 then [digit_char n] else show_nat (n div 10) @ [digit_char n])"
  by pat_completeness auto
termination
  by (relation "measure (\<lambda>n. n)") auto

declare show_nat.simps [simp del]

section \<open>The streaming translator (streaming.ts)\<close>

subsection \<open>Fragments of the backend stream\<close>

record FunctionDelta =
  fn_name :: "string option"
  fn_arguments :: "string option"

record ToolCallDelta =
  tc_index :: int
  tc_id :: "string option"
  tc_function :: "FunctionDelta option"

record Delta =
  content :: "string option"
  tool_calls :: "ToolCallDelta list option"

record Choice =
  delta :: Delta
  finish_reason :: "string option"

record ChatCompletionChunk =
  choices :: "Choice list"

text \<open>
  One step of the asynchronous iterator \<open>openaiStream\<close>: it yields a chunk, or the
  \<open>for await\<close> throws (a transport failure carrying a message).
\<close>

datatype stream_item = Yield ChatCompletionChunk | Fails string

subsection \<open>Events written to the response\<close>

text \<open>
  The values that reach the variable \<open>finalAnthropicStopReason\<close>: the five stop reasons,
  and the member of \<open>Object.prototype\<close> that a lookup in one of the stop-reason tables
  returns for an inherited property name.
\<close>

datatype StopReasonType =
    End_turn
  | Max_tokens
  | Stop_sequence
  | Tool_use
  | Error_reason
  | Inherited_member string

datatype content_block = Text_block string | Tool_use_block string string

datatype delta_payload = Text_delta string | Input_json_delta string

datatype StreamEvent =
    MessageStart string string nat
  | Ping
  | ContentBlockStart nat content_block
  | ContentBlockDelta nat delta_payload
  | ContentBlockStop nat
  | MessageDelta StopReasonType nat
  | MessageStop
  | ErrorEvent string

subsection \<open>Per-stream state\<close>

record ToolState =
  tool_id :: string
  tool_name :: string
  arguments_buffer :: string

text \<open>
  \<open>sentToolBlockStarts\<close> is a JavaScript \<open>Set\<close>: it holds no duplicates and is iterated
  in insertion order, so it is a list to which an absent element is appended.
  \<open>written\<close> is the sequence of events passed to \<open>writeSSE\<close> so far.
\<close>

record StreamState =
  nextAnthropicBlockIdx :: nat
  textBlockAnthropicIdx :: "nat option"
  openaiToolIdxToAnthropicBlockIdx :: "int \<rightharpoonup> nat"
  toolStates :: "nat \<rightharpoonup> ToolState"
  sentToolBlockStarts :: "nat list"
  outputTokenCount :: nat
  written :: "StreamEvent list"

definition writeSSE :: "StreamEvent \<Rightarrow> StreamState \<Rightarrow> StreamState" where
  "writeSSE e s = s\<lparr>written := written s @ [e]\<rparr>"

definition set_add :: "nat \<Rightarrow> nat list \<Rightarrow> nat list" where
  "set_add x xs = (if x \<in> set xs then xs else xs @ [x])"

subsection \<open>The body of the fragment loop\<close>

text \<open>
  The token encoder, \<open>encoder.encode(_).length\<close>: it returns the number of tokens of a
  text, or throws with a message (the tiktoken encoder rejects a text that holds one of
  its special tokens).
\<close>

type_synonym encoder = "string \<Rightarrow> string + nat"

text \<open>
  Lines 88 to 109: a non-empty text delta. The encoder is called first, so an exception
  of the encoder leaves the state as it was; the result is then the message and that state.
\<close>

definition handleContentDelta ::
  "encoder \<Rightarrow> StreamState \<Rightarrow> string option \<Rightarrow> (string \<times> StreamState) + StreamState" where
  "handleContentDelta enc s c =
     (case c of
        None \<Rightarrow> Inr s
      | Some txt \<Rightarrow>
          if txt = [] then Inr s
          else
            (case enc txt of
               Inl err \<Rightarrow> Inl (err, s)
             | Inr n \<Rightarrow>
                 let s1 = s\<lparr>outputTokenCount := outputTokenCount s + n\<rparr>;
                     s2 = (case textBlockAnthropicIdx s1 of
                             Some _ \<Rightarrow> s1
                           | None \<Rightarrow>
                               writeSSE (ContentBlockStart (nextAnthropicBlockIdx s1) (Text_block []))
                                 (s1\<lparr>textBlockAnthropicIdx := Some (nextAnthropicBlockIdx s1),
                                     nextAnthropicBlockIdx := nextAnthropicBlockIdx s1 + 1\<rparr>))
                 in Inr (case textBlockAnthropicIdx s2 of
                           Some t \<Rightarrow> writeSSE (ContentBlockDelta t (Text_delta txt)) s2
                         | None \<Rightarrow> s2)))"

text \<open>
  Lines 114 to 136: the block index of a tool-call delta, allocated on first sight of its
  backend index, together with the state after the allocation.
\<close>

definition placeholder_id :: "string \<Rightarrow> nat \<Rightarrow> string" where
  "placeholder_id requestId idx = ''tool_ph_'' @ requestId @ ''_'' @ show_nat idx"

definition resolveToolBlock :: "string \<Rightarrow> StreamState \<Rightarrow> ToolCallDelta \<Rightarrow> StreamState \<times> nat" where
  "resolveToolBlock requestId s toolDelta =
     (case openaiToolIdxToAnthropicBlockIdx s (tc_index toolDelta) of
        Some cur \<Rightarrow> (s, cur)
      | None \<Rightarrow>
          let cur = nextAnthropicBlockIdx s in
          (s\<lparr>nextAnthropicBlockIdx := cur + 1,
             openaiToolIdxToAnthropicBlockIdx :=
               (openaiToolIdxToAnthropicBlockIdx s)(tc_index toolDelta \<mapsto> cur),
             toolStates := (toolStates s)(cur \<mapsto>
               \<lparr>tool_id = (if truthy (tc_id toolDelta) then value_of (tc_id toolDelta)
                            else placeholder_id requestId cur),
                tool_name = [], arguments_buffer = []\<rparr>)\<rparr>, cur))"

text \<open>Lines 139 to 156: the accumulated state of the block after this delta.\<close>

definition accumulate :: "ToolState \<Rightarrow> ToolCallDelta \<Rightarrow> ToolState" where
  "accumulate toolState toolDelta =
     (let t1 = (if truthy (tc_id toolDelta) \<and> startsWith (tool_id toolState) ''tool_ph_''
                then toolState\<lparr>tool_id := value_of (tc_id toolDelta)\<rparr> else toolState)
      in case tc_function toolDelta of
           None \<Rightarrow> t1
         | Some f \<Rightarrow>
             let t2 = (if truthy (fn_name f) then t1\<lparr>tool_name := value_of (fn_name f)\<rparr> else t1)
             in if truthy (fn_arguments f)
                then t2\<lparr>arguments_buffer := arguments_buffer t2 @ value_of (fn_arguments f)\<rparr>
                else t2)"

text \<open>The arguments fragment of a delta, \<open>toolDelta.function?.arguments\<close>, when truthy.\<close>

definition arguments_fragment :: "ToolCallDelta \<Rightarrow> string option" where
  "arguments_fragment toolDelta =
     (case tc_function toolDelta of
        None \<Rightarrow> None
      | Some f \<Rightarrow> if truthy (fn_arguments f) then fn_arguments f else None)"

text \<open>The test of lines 161 to 163 on the accumulated state.\<close>

definition start_ready :: "ToolState \<Rightarrow> bool" where
  "start_ready toolState \<longleftrightarrow>
     tool_id toolState \<noteq> [] \<and> \<not> startsWith (tool_id toolState) ''tool_ph_'' \<and> tool_name toolState \<noteq> []"

text \<open>
  Lines 113 to 194, one tool-call delta. A missing entry of \<open>toolStates\<close> makes the
  property accesses on \<open>toolState\<close> a TypeError, which the enclosing \<open>try\<close> catches;
  the events written before it stay written. No state that the loop reaches lacks the
  entry (lemma \<open>processToolDelta_inv\<close> below). The encoder is called at line 154, after
  the id, the name and the buffer have been updated and before the tests for the start
  and the delta; when it throws, the block keeps the accumulated state and nothing is
  written for this delta.
\<close>

definition processToolDelta ::
  "string \<Rightarrow> encoder \<Rightarrow> StreamState \<Rightarrow> ToolCallDelta \<Rightarrow>
     (string \<times> StreamState) + StreamState" where
  "processToolDelta requestId enc s0 toolDelta =
     (let (s, cur) = resolveToolBlock requestId s0 toolDelta in
      case toolStates s cur of
        None \<Rightarrow> Inl (''TypeError'', s)
      | Some old \<Rightarrow>
          let toolState = accumulate old toolDelta;
              sa = s\<lparr>toolStates := (toolStates s)(cur \<mapsto> toolState)\<rparr>
          in (case (case arguments_fragment toolDelta of None \<Rightarrow> Inr 0 | Some a \<Rightarrow> enc a) of
                Inl err \<Rightarrow> Inl (err, sa)
              | Inr n \<Rightarrow>
                  let s1 = sa\<lparr>outputTokenCount := outputTokenCount sa + n\<rparr>;
                      s2 = (if cur \<notin> set (sentToolBlockStarts s1) \<and> start_ready toolState
                            then (writeSSE (ContentBlockStart cur
                                     (Tool_use_block (tool_id toolState) (tool_name toolState))) s1)
                                   \<lparr>sentToolBlockStarts := set_add cur (sentToolBlockStarts s1)\<rparr>
                            else s1)
                  in Inr (case arguments_fragment toolDelta of
                            None \<Rightarrow> s2
                          | Some a \<Rightarrow>
                              if cur \<in> set (sentToolBlockStarts s2)
                              then writeSSE (ContentBlockDelta cur (Input_json_delta a)) s2
                              else s2)))"

fun processToolDeltas ::
  "string \<Rightarrow> encoder \<Rightarrow> StreamState \<Rightarrow> ToolCallDelta list \<Rightarrow>
     (string \<times> StreamState) + StreamState" where
  "processToolDeltas requestId enc s [] = Inr s"
| "processToolDeltas requestId enc s (toolDelta # rest) =
     (case processToolDelta requestId enc s toolDelta of
        Inl err \<Rightarrow> Inl err
      | Inr s' \<Rightarrow> processToolDeltas requestId enc s' rest)"

text \<open>Lines 84 to 195: the text delta and the tool-call deltas of the first choice.\<close>

definition processDelta ::
  "string \<Rightarrow> encoder \<Rightarrow> StreamState \<Rightarrow> Delta \<Rightarrow> (string \<times> StreamState) + StreamState" where
  "processDelta requestId enc s d =
     (case handleContentDelta enc s (content d) of
        Inl failure \<Rightarrow> Inl failure
      | Inr s1 \<Rightarrow>
          (case tool_calls d of
             None \<Rightarrow> Inr s1
           | Some tds \<Rightarrow> processToolDeltas requestId enc s1 tds))"

text \<open>
  The property names that an object literal inherits from \<open>Object.prototype\<close>. Each of
  them is a function or, for \<open>__proto__\<close>, the prototype object, so each is truthy.
\<close>

definition object_prototype_names :: "string list" where
  "object_prototype_names =
     [''constructor'', ''hasOwnProperty'', ''isPrototypeOf'', ''propertyIsEnumerable'',
      ''toLocaleString'', ''toString'', ''valueOf'', ''__proto__'', ''__defineGetter__'',
      ''__defineSetter__'', ''__lookupGetter__'', ''__lookupSetter__'']"

text \<open>
  \<open>table[key] || 'end_turn'\<close> for a stop-reason table written as an object literal: the
  value under an own key, else the inherited member for an inherited name, else the
  default.
\<close>

definition lookup_or_end_turn :: "(string \<rightharpoonup> StopReasonType) \<Rightarrow> string \<Rightarrow> StopReasonType" where
  "lookup_or_end_turn table key =
     (case table key of
        Some v \<Rightarrow> v
      | None \<Rightarrow> if key \<in> set object_prototype_names then Inherited_member key else End_turn)"

text \<open>The own properties of the table of lines 37 to 43.\<close>

definition openaiToAnthropicStopReasonMap :: "string \<rightharpoonup> StopReasonType" where
  "openaiToAnthropicStopReasonMap =
     [''stop'' \<mapsto> End_turn, ''length'' \<mapsto> Max_tokens, ''tool_calls'' \<mapsto> Tool_use,
      ''function_call'' \<mapsto> Tool_use, ''content_filter'' \<mapsto> Stop_sequence]"

text \<open>Lines 198 to 204: the stop reason for a truthy finish reason.\<close>

definition mapFinishReason :: "string \<Rightarrow> StopReasonType" where
  "mapFinishReason openaiFinishReason =
     (let r = lookup_or_end_turn openaiToAnthropicStopReasonMap openaiFinishReason
      in if openaiFinishReason = ''tool_calls'' then Tool_use else r)"

text \<open>
  How the \<open>for await\<close> loop of lines 79 to 205 ends: the source is exhausted, a finish
  reason breaks the loop with the stop reason already mapped, or an exception leaves it.
\<close>

datatype loop_exit = Exhausted | Finished StopReasonType | Threw string

fun consumeStream ::
  "string \<Rightarrow> encoder \<Rightarrow> StreamState \<Rightarrow> stream_item list \<Rightarrow> loop_exit \<times> StreamState" where
  "consumeStream requestId enc s [] = (Exhausted, s)"
| "consumeStream requestId enc s (Fails msg # rest) = (Threw msg, s)"
| "consumeStream requestId enc s (Yield chunk # rest) =
     (case choices chunk of
        [] \<Rightarrow> consumeStream requestId enc s rest
      | choice # _ \<Rightarrow>
          (case processDelta requestId enc s (delta choice) of
             Inl (err, s2) \<Rightarrow> (Threw err, s2)
           | Inr s2 \<Rightarrow>
               if truthy (finish_reason choice)
               then (Finished (mapFinishReason (value_of (finish_reason choice))), s2)
               else consumeStream requestId enc s2 rest))"

subsection \<open>Finalization and the whole handler\<close>

text \<open>
  Lines 207 to 229: the stop events. The \<open>for ... of\<close> over the \<open>Set\<close> visits the indices
  in the order of their insertion.
\<close>

definition sendContentBlockStops :: "StreamState \<Rightarrow> StreamState" where
  "sendContentBlockStops s =
     (let s1 = (case textBlockAnthropicIdx s of
                  None \<Rightarrow> s
                | Some t \<Rightarrow> writeSSE (ContentBlockStop t) s)
      in fold (\<lambda>anthropicToolIdx. writeSSE (ContentBlockStop anthropicToolIdx))
           (sentToolBlockStarts s1) s1)"

record StreamResult =
  sse :: "StreamEvent list"
  streamStatusCode :: nat
  finalAnthropicStopReason :: StopReasonType
  output_tokens :: nat

definition initialState :: StreamState where
  "initialState =
     \<lparr>nextAnthropicBlockIdx = 0, textBlockAnthropicIdx = None,
      openaiToolIdxToAnthropicBlockIdx = Map.empty, toolStates = Map.empty,
      sentToolBlockStarts = [], outputTokenCount = 0, written = []\<rparr>"

text \<open>
  Lines 24 and 62 to 77: the state after \<open>message_start\<close> and \<open>ping\<close> have been written.
  \<open>uuid8\<close> stands for the eight characters taken from a fresh UUID.
\<close>

definition startedState :: "string \<Rightarrow> string \<Rightarrow> string \<Rightarrow> nat \<Rightarrow> StreamState" where
  "startedState requestId uuid8 originalAnthropicModelName estimatedInputTokens =
     (let anthropicMessageId = ''msg_stream_'' @ requestId @ ''_'' @ uuid8
      in writeSSE Ping
           (writeSSE (MessageStart anthropicMessageId originalAnthropicModelName
                        estimatedInputTokens) initialState))"

text \<open>Lines 199 to 202 and 231 to 233: the stop reason after the loop.\<close>

definition exit_reason :: "loop_exit \<Rightarrow> StopReasonType" where
  "exit_reason ex = (case ex of Finished r \<Rightarrow> r | _ \<Rightarrow> End_turn)"

text \<open>
  The handler. \<open>enc\<close> is the token encoder. The result holds what was written
  to the response and the status, stop reason and token count that the \<open>finally\<close> block
  logs. Calls of the logger write nothing to the response and are left out.
\<close>

definition handleAnthropicStreamingResponseFromOpenAIStream ::
  "stream_item list \<Rightarrow> string \<Rightarrow> nat \<Rightarrow> string \<Rightarrow> string \<Rightarrow> encoder \<Rightarrow> StreamResult" where
  "handleAnthropicStreamingResponseFromOpenAIStream openaiStream originalAnthropicModelName
       estimatedInputTokens requestId uuid8 enc =
     (case consumeStream requestId enc
             (startedState requestId uuid8 originalAnthropicModelName estimatedInputTokens)
             openaiStream of
        (Threw errorMsgStr, s) \<Rightarrow>
          \<lparr>sse = written (writeSSE (ErrorEvent errorMsgStr) s), streamStatusCode = 500,
           finalAnthropicStopReason = Error_reason, output_tokens = outputTokenCount s\<rparr>
      | (ex, s) \<Rightarrow>
          let s1 = sendContentBlockStops s;
              s2 = writeSSE MessageStop
                     (writeSSE (MessageDelta (exit_reason ex) (outputTokenCount s1)) s1)
          in \<lparr>sse = written s2, streamStatusCode = 200,
              finalAnthropicStopReason = exit_reason ex, output_tokens = outputTokenCount s1\<rparr>)"

subsection \<open>Reading an event sequence\<close>

text \<open>
  The block indices that an event starts, continues or stops, and the indices of the
  starts and stops of a sequence in the order of the events.
\<close>

fun starts_of :: "StreamEvent \<Rightarrow> nat list" where
  "starts_of (ContentBlockStart i b) = [i]"
| "starts_of e = []"

fun text_starts_of :: "StreamEvent \<Rightarrow> nat list" where
  "text_starts_of (ContentBlockStart i (Text_block t)) = [i]"
| "text_starts_of e = []"

fun tool_starts_of :: "StreamEvent \<Rightarrow> nat list" where
  "tool_starts_of (ContentBlockStart i (Tool_use_block d n)) = [i]"
| "tool_starts_of e = []"

fun deltas_of :: "StreamEvent \<Rightarrow> nat list" where
  "deltas_of (ContentBlockDelta i p) = [i]"
| "deltas_of e = []"

fun stops_of :: "StreamEvent \<Rightarrow> nat list" where
  "stops_of (ContentBlockStop i) = [i]"
| "stops_of e = []"

definition start_indices :: "StreamEvent list \<Rightarrow> nat list" where
  "start_indices evs = concat (map starts_of evs)"

definition text_start_indices :: "StreamEvent list \<Rightarrow> nat list" where
  "text_start_indices evs = concat (map text_starts_of evs)"

definition tool_start_indices :: "StreamEvent list \<Rightarrow> nat list" where
  "tool_start_indices evs = concat (map tool_starts_of evs)"

definition stop_indices :: "StreamEvent list \<Rightarrow> nat list" where
  "stop_indices evs = concat (map stops_of evs)"

definition event_indices :: "StreamEvent \<Rightarrow> nat list" where
  "event_indices e = starts_of e @ deltas_of e @ stops_of e"

text \<open>The events that the loop writes, and the sequences in which every delta follows a start
  of its block.\<close>

fun body_event :: "StreamEvent \<Rightarrow> bool" where
  "body_event (MessageStart a b c) = True"
| "body_event Ping = True"
| "body_event (ContentBlockStart i b) = True"
| "body_event (ContentBlockDelta i p) = True"
| "body_event e = False"

fun deltas_started :: "nat set \<Rightarrow> StreamEvent list \<Rightarrow> bool" where
  "deltas_started seen [] = True"
| "deltas_started seen (e # es) =
     (set (deltas_of e) \<subseteq> seen \<and> deltas_started (seen \<union> set (starts_of e)) es)"

subsection \<open>Invariants of the fragment loop\<close>

definition text_list :: "nat option \<Rightarrow> nat list" where
  "text_list t = (case t of None \<Rightarrow> [] | Some i \<Rightarrow> [i])"

definition stream_inv :: "StreamState \<Rightarrow> bool" where
  "stream_inv s \<longleftrightarrow>
     (\<forall>k i. openaiToolIdxToAnthropicBlockIdx s k = Some i \<longrightarrow>
        i < nextAnthropicBlockIdx s \<and> toolStates s i \<noteq> None \<and> textBlockAnthropicIdx s \<noteq> Some i) \<and>
     (\<forall>t. textBlockAnthropicIdx s = Some t \<longrightarrow> t < nextAnthropicBlockIdx s) \<and>
     set (sentToolBlockStarts s) \<subseteq> ran (openaiToolIdxToAnthropicBlockIdx s) \<and>
     distinct (sentToolBlockStarts s) \<and>
     tool_start_indices (written s) = sentToolBlockStarts s \<and>
     text_start_indices (written s) = text_list (textBlockAnthropicIdx s) \<and>
     (\<forall>e \<in> set (written s). body_event e) \<and>
     deltas_started {} (written s)"

text \<open>
  The life cycle of block \<open>i\<close> in an event sequence: one start, one stop, every delta
  between them, and MessageStop after the stop.
\<close>

definition block_lifecycle :: "nat \<Rightarrow> StreamEvent list \<Rightarrow> bool" where
  "block_lifecycle i evs \<longleftrightarrow>
     count_list (start_indices evs) i = 1 \<and>
     count_list (stop_indices evs) i = 1 \<and>
     (\<forall>pre e post. evs = pre @ e # post \<and> i \<in> set (deltas_of e) \<longrightarrow>
        i \<in> set (start_indices pre) \<and> i \<in> set (stop_indices post)) \<and>
     (\<forall>pre post. evs = pre @ ContentBlockStop i # post \<longrightarrow>
        i \<in> set (start_indices pre) \<and> MessageStop \<in> set post)"

subsection \<open>Example streams and encoders\<close>

text \<open>
  The fallback encoder of tokenizer.ts, one token per character, and an encoder that
  rejects the text of one special token as the tiktoken encoder does.
\<close>

definition dummyEncoder :: encoder where
  "dummyEncoder text = Inr (length text)"


definition mk_tool_delta ::
  "int \<Rightarrow> string option \<Rightarrow> string option \<Rightarrow> string option \<Rightarrow> ToolCallDelta" where
  "mk_tool_delta i d n a =
     \<lparr>tc_index = i, tc_id = d,
      tc_function = (if n = None \<and> a = None then None
                     else Some \<lparr>fn_name = n, fn_arguments = a\<rparr>)\<rparr>"

definition mk_chunk ::
  "string option \<Rightarrow> ToolCallDelta list option \<Rightarrow> string option \<Rightarrow> stream_item" where
  "mk_chunk c t f =
     Yield \<lparr>choices = [\<lparr>delta = \<lparr>content = c, tool_calls = t\<rparr>, finish_reason = f\<rparr>]\<rparr>"

text \<open>Scenario C of the specification, with shortened argument fragments.\<close>

definition scenario_C :: "stream_item list" where
  "scenario_C =
     [mk_chunk None (Some [mk_tool_delta 0 (Some ''t1'') (Some ''get_weather'') None]) None,
      mk_chunk None (Some [mk_tool_delta 0 None None (Some ''{c'')]) None,
      mk_chunk None (Some [mk_tool_delta 0 None None (Some ''ity}'')]) None,
      mk_chunk None None (Some ''tool_calls'')]"

text \<open>
  Two tool calls: call 0 first arrives without id or name, call 1 arrives complete, then
  call 0 receives its id and name.
\<close>

definition reordered_stream :: "stream_item list" where
  "reordered_stream =
     [mk_chunk None (Some [mk_tool_delta 0 None None (Some ''{'')]) None,
      mk_chunk None (Some [mk_tool_delta 1 (Some ''b'') (Some ''g'') None]) None,
      mk_chunk None (Some [mk_tool_delta 0 (Some ''a'') (Some ''f'') None]) None,
      mk_chunk None None (Some ''tool_calls'')]"








inductive reachable :: "string \<Rightarrow> encoder \<Rightarrow> StreamState \<Rightarrow> bool"
  for requestId :: string and enc :: encoder where
  started: "reachable requestId enc (startedState requestId uuid8 model n)"
| content_delta: "reachable requestId enc s \<Longrightarrow> handleContentDelta enc s c = Inr s' \<Longrightarrow>
     reachable requestId enc s'"
| tool_delta: "reachable requestId enc s \<Longrightarrow> processToolDelta requestId enc s td = Inr s' \<Longrightarrow>
     reachable requestId enc s'"





section \<open>The request and response translators (converter.ts)\<close>

subsection \<open>JSON values, the builtins and the logger\<close>

text \<open>
  A value that \<open>JSON.parse\<close> can produce. An object is the list of its properties; reading
  a property takes the first entry under that key.
\<close>

datatype json =
    JNull
  | JBool bool
  | JNum int
  | JStr string
  | JArr "json list"
  | JObj "(string \<times> json) list"

datatype UserPart = TextPart string | ImageUrlPart string

text \<open>
  The builtins of the JavaScript runtime that the translators call. \<open>JSON_stringify\<close>
  and \<open>JSON_parse\<close> return \<open>None\<close> where the builtin throws. \<open>stringify_parts\<close> is
  \<open>JSON.stringify\<close> on the array of parts built for a user message, whose members are
  \<open>{type: 'text', text}\<close> and \<open>{type: 'image_url', image_url: {url}}\<close> with string
  fields only. \<open>String_of\<close> is \<open>String(_)\<close>.
\<close>

record js_builtins =
  JSON_stringify :: "json \<Rightarrow> string option"
  JSON_parse :: "string \<Rightarrow> json option"
  stringify_parts :: "UserPart list \<Rightarrow> string"
  String_of :: "json \<Rightarrow> string"
  toLowerCase :: "string \<Rightarrow> string"

datatype LogLevel = Debug_level | Info_level | Warning_level | Error_level

datatype LogEvent =
    MODEL_SELECTION
  | SYSTEM_PROMPT_ADJUSTED
  | IMAGE_FORMAT_UNSUPPORTED
  | TOOL_INPUT_SERIALIZATION_FAILURE
  | TOOL_RESULT_PROCESSING
  | MESSAGE_FORMAT_NORMALIZED
  | TOOL_ARGS_TYPE_MISMATCH
  | TOOL_ARGS_PARSE_FAILURE

text \<open>A call of the logger: its level and the event of the record it was given.\<close>

type_synonym LogRecord = "LogLevel \<times> LogEvent"

definition js_typeof :: "json \<Rightarrow> string" where
  "js_typeof v =
     (case v of
        JBool b \<Rightarrow> ''boolean''
      | JNum n \<Rightarrow> ''number''
      | JStr s \<Rightarrow> ''string''
      | _ \<Rightarrow> ''object'')"

text \<open>\<open>Array.prototype.join\<close> on strings.\<close>

fun join :: "string \<Rightarrow> string list \<Rightarrow> string" where
  "join sep [] = []"
| "join sep [x] = x"
| "join sep (x # y # ys) = x @ sep @ join sep (y # ys)"

definition newline :: string where
  "newline = [CHR 0x0A]"

subsection \<open>Model selection\<close>

text \<open>\<open>String.prototype.includes\<close>: the argument occurs as a contiguous substring.\<close>

definition str_includes :: "string \<Rightarrow> string \<Rightarrow> bool" where
  "str_includes s sub = sublist sub s"

definition selectTargetModel ::
  "js_builtins \<Rightarrow> string \<Rightarrow> string \<Rightarrow> string \<Rightarrow> string \<times> LogRecord list" where
  "selectTargetModel env clientModelName bigModelName smallModelName =
     (let clientModelLower = toLowerCase env clientModelName;
          (targetModel, warned) =
            (if str_includes clientModelLower ''opus'' \<or> str_includes clientModelLower ''sonnet''
             then (bigModelName, [])
             else if str_includes clientModelLower ''haiku''
             then (smallModelName, [])
             else (smallModelName, [(Warning_level, MODEL_SELECTION)]))
      in (targetModel, warned @ [(Debug_level, MODEL_SELECTION)]))"

subsection \<open>Messages of the two dialects\<close>

record SystemContent =
  sys_type :: string
  sys_text :: string

datatype SystemPrompt = SystemString string | SystemBlocks "SystemContent list"

datatype SourceRole = User | Assistant

record ImageSource =
  source_type :: string
  media_type :: string
  source_data :: string

datatype ToolResultContent = ResultString string | ResultArray "json list"

datatype ContentBlock =
    ContentBlockText string
  | ContentBlockImage ImageSource
  | ContentBlockToolUse string string json
  | ContentBlockToolResult string ToolResultContent

datatype MessageContent = StringContent string | BlockContent "ContentBlock list"

record Message =
  msg_role :: SourceRole
  msg_content :: MessageContent

datatype TargetRole = System_role | User_role | Assistant_role | Tool_role

fun target_role :: "SourceRole \<Rightarrow> TargetRole" where
  "target_role User = User_role"
| "target_role Assistant = Assistant_role"

record ToolCall =
  call_id :: string
  call_type :: string
  function_name :: string
  function_arguments :: string

text \<open>
  A message of the target dialect. \<open>om_content = None\<close> is \<open>content: null\<close>;
  \<open>om_tool_calls = None\<close> and \<open>om_tool_call_id = None\<close> are absent properties.
\<close>

record OpenAIMessage =
  om_role :: TargetRole
  om_content :: "string option"
  om_tool_calls :: "ToolCall list option"
  om_tool_call_id :: "string option"

definition plain_message :: "TargetRole \<Rightarrow> string \<Rightarrow> OpenAIMessage" where
  "plain_message r c = \<lparr>om_role = r, om_content = Some c, om_tool_calls = None, om_tool_call_id = None\<rparr>"

definition tool_message :: "string \<Rightarrow> string \<Rightarrow> OpenAIMessage" where
  "tool_message tool_use_id c =
     \<lparr>om_role = Tool_role, om_content = Some c, om_tool_calls = None,
      om_tool_call_id = Some tool_use_id\<rparr>"

definition tool_calls_message :: "ToolCall list \<Rightarrow> OpenAIMessage" where
  "tool_calls_message tcs =
     \<lparr>om_role = Assistant_role, om_content = None, om_tool_calls = Some tcs,
      om_tool_call_id = None\<rparr>"

subsection \<open>Tool results\<close>

text \<open>The test of line 263 on an item of a tool result's content array.\<close>

definition text_item :: "json \<Rightarrow> json option" where
  "text_item item =
     (case item of
        JObj props \<Rightarrow>
          (if map_of props ''type'' = Some (JStr ''text'') then map_of props ''text'' else None)
      | _ \<Rightarrow> None)"

definition serializeItem :: "js_builtins \<Rightarrow> json \<Rightarrow> string \<times> bool" where
  "serializeItem env item =
     (case text_item item of
        Some t \<Rightarrow> (String_of env t, False)
      | None \<Rightarrow>
          (case JSON_stringify env item of
             Some s \<Rightarrow> (s, True)
           | None \<Rightarrow>
               (''<unserializable_item type='' @ [CHR 0x27] @ js_typeof item @ [CHR 0x27] @ ''>'',
                True)))"

text \<open>
  Lines 248 to 286. The content of a tool result is a string or an array by its type, so
  the branch after the array case is not reached. \<open>hasLogger\<close> tells whether the optional
  logger was passed.
\<close>

definition serializeToolResultContentForOpenAI ::
  "js_builtins \<Rightarrow> bool \<Rightarrow> ToolResultContent \<Rightarrow> string \<times> LogRecord list" where
  "serializeToolResultContentForOpenAI env hasLogger anthropicToolResultContent =
     (case anthropicToolResultContent of
        ResultString s \<Rightarrow> (s, [])
      | ResultArray items \<Rightarrow>
          let processed = map (serializeItem env) items;
              resultStr = join newline (map fst processed);
              containsNonTextBlock = list_ex snd processed
          in (resultStr,
              if containsNonTextBlock \<and> hasLogger
              then [(Warning_level, TOOL_RESULT_PROCESSING)] else []))"

subsection \<open>The request translator\<close>

text \<open>The variables of the loop over the blocks of one message (lines 91 to 184).\<close>

record BlockLoop =
  openaiMessages :: "OpenAIMessage list"
  openaiPartsForUserMessage :: "UserPart list"
  assistantToolCalls :: "ToolCall list"
  textContentForAssistant :: "string list"
  logged :: "LogRecord list"

fun processBlock ::
  "js_builtins \<Rightarrow> bool \<Rightarrow> SourceRole \<Rightarrow> BlockLoop \<Rightarrow> ContentBlock \<Rightarrow> BlockLoop" where
  "processBlock env hasLogger r st (ContentBlockText t) =
     (case r of
        User \<Rightarrow> st\<lparr>openaiPartsForUserMessage := openaiPartsForUserMessage st @ [TextPart t]\<rparr>
      | Assistant \<Rightarrow> st\<lparr>textContentForAssistant := textContentForAssistant st @ [t]\<rparr>)"
| "processBlock env hasLogger r st (ContentBlockImage src) =
     (case r of
        User \<Rightarrow>
          if source_type src = ''base64''
          then st\<lparr>openaiPartsForUserMessage := openaiPartsForUserMessage st @
                 [ImageUrlPart (''data:'' @ media_type src @ '';base64,'' @ source_data src)]\<rparr>
          else if hasLogger
          then st\<lparr>logged := logged st @ [(Warning_level, IMAGE_FORMAT_UNSUPPORTED)]\<rparr>
          else st
      | Assistant \<Rightarrow> st)"
| "processBlock env hasLogger r st (ContentBlockToolUse tid tname input) =
     (case r of
        User \<Rightarrow> st
      | Assistant \<Rightarrow>
          (case JSON_stringify env input of
             Some argsStr \<Rightarrow>
               st\<lparr>assistantToolCalls := assistantToolCalls st @
                    [\<lparr>call_id = tid, call_type = ''function'', function_name = tname,
                      function_arguments = argsStr\<rparr>]\<rparr>
           | None \<Rightarrow>
               st\<lparr>logged := logged st @
                      (if hasLogger then [(Error_level, TOOL_INPUT_SERIALIZATION_FAILURE)] else []),
                  assistantToolCalls := assistantToolCalls st @
                    [\<lparr>call_id = tid, call_type = ''function'', function_name = tname,
                      function_arguments = ''{}''\<rparr>]\<rparr>))"
| "processBlock env hasLogger r st (ContentBlockToolResult tool_use_id c) =
     (case r of
        User \<Rightarrow>
          let (serializedContent, l) = serializeToolResultContentForOpenAI env hasLogger c
          in st\<lparr>openaiMessages := openaiMessages st @ [tool_message tool_use_id serializedContent],
                logged := logged st @ l\<rparr>
      | Assistant \<Rightarrow> st)"

text \<open>Lines 186 to 196: the user message built from the collected parts.\<close>

definition is_image_part :: "UserPart \<Rightarrow> bool" where
  "is_image_part p = (case p of ImageUrlPart u \<Rightarrow> True | TextPart t \<Rightarrow> False)"

definition pushUserParts :: "js_builtins \<Rightarrow> OpenAIMessage list \<Rightarrow> UserPart list \<Rightarrow> OpenAIMessage list" where
  "pushUserParts env msgs parts =
     (if parts \<noteq> [] then
        (if list_ex is_image_part parts \<or> length parts > 1
         then msgs @ [plain_message User_role (stringify_parts env parts)]
         else (case parts of
                 [TextPart t] \<Rightarrow> msgs @ [plain_message User_role t]
               | _ \<Rightarrow> msgs))
      else msgs @ [plain_message User_role []])"

text \<open>
  Lines 205 to 226: the tool calls go to a new message with \<open>content: null\<close>, or onto the
  last message when that is an assistant message with falsy content and no tool calls;
  the last message is then changed in place.
\<close>

definition attachToolCalls :: "OpenAIMessage list \<Rightarrow> ToolCall list \<Rightarrow> OpenAIMessage list" where
  "attachToolCalls msgs tcs =
     (if msgs = [] then msgs @ [tool_calls_message tcs]
      else
        let lastMessage = last msgs in
        if om_role lastMessage = Assistant_role \<and> truthy (om_content lastMessage) \<and>
           om_tool_calls lastMessage = None
        then msgs @ [tool_calls_message tcs]
        else if om_role lastMessage = Assistant_role \<and> om_tool_calls lastMessage = None
        then butlast msgs @ [lastMessage\<lparr>om_tool_calls := Some tcs, om_content := None\<rparr>]
        else msgs @ [tool_calls_message tcs])"

text \<open>Lines 198 to 227: the assistant messages built from the collected texts and calls.\<close>

definition pushAssistant :: "OpenAIMessage list \<Rightarrow> string list \<Rightarrow> ToolCall list \<Rightarrow> OpenAIMessage list" where
  "pushAssistant msgs texts tcs =
     (let assistantText = join newline (filter (\<lambda>t. t \<noteq> []) texts);
          msgs1 = (if assistantText \<noteq> [] then msgs @ [plain_message Assistant_role assistantText]
                   else msgs)
      in if tcs \<noteq> [] then attachToolCalls msgs1 tcs else msgs1)"

text \<open>Lines 82 to 228: one iteration of the loop over the source messages.\<close>

definition convertMessage ::
  "js_builtins \<Rightarrow> bool \<Rightarrow> OpenAIMessage list \<times> LogRecord list \<Rightarrow> Message \<Rightarrow>
     OpenAIMessage list \<times> LogRecord list" where
  "convertMessage env hasLogger acc msg =
     (case msg_content msg of
        StringContent s \<Rightarrow> (fst acc @ [plain_message (target_role (msg_role msg)) s], snd acc)
      | BlockContent blocks \<Rightarrow>
          if blocks = [] then (fst acc @ [plain_message (target_role (msg_role msg)) []], snd acc)
          else
            let st = foldl (processBlock env hasLogger (msg_role msg))
                       \<lparr>openaiMessages = fst acc, openaiPartsForUserMessage = [],
                        assistantToolCalls = [], textContentForAssistant = [],
                        logged = snd acc\<rparr> blocks
            in (case msg_role msg of
                  User \<Rightarrow> (pushUserParts env (openaiMessages st) (openaiPartsForUserMessage st),
                            logged st)
                | Assistant \<Rightarrow>
                    (pushAssistant (openaiMessages st) (textContentForAssistant st)
                       (assistantToolCalls st), logged st)))"

text \<open>Lines 57 to 78: the system prompt.\<close>

definition systemText :: "SystemPrompt option \<Rightarrow> string" where
  "systemText anthropicSystem =
     (case anthropicSystem of
        None \<Rightarrow> []
      | Some (SystemString s) \<Rightarrow> s
      | Some (SystemBlocks blocks) \<Rightarrow>
          join newline (map sys_text (filter (\<lambda>b. sys_type b = ''text'') blocks)))"

definition systemWarnings :: "bool \<Rightarrow> SystemPrompt option \<Rightarrow> LogRecord list" where
  "systemWarnings hasLogger anthropicSystem =
     (case anthropicSystem of
        Some (SystemBlocks blocks) \<Rightarrow>
          if length (filter (\<lambda>b. sys_type b = ''text'') blocks) < length blocks \<and> hasLogger
          then [(Warning_level, SYSTEM_PROMPT_ADJUSTED)] else []
      | _ \<Rightarrow> [])"

text \<open>Lines 231 to 243: the final pass over the target messages.\<close>

definition normalizes :: "bool \<Rightarrow> OpenAIMessage \<Rightarrow> bool" where
  "normalizes hasLogger m \<longleftrightarrow>
     om_role m = Assistant_role \<and> om_tool_calls m \<noteq> None \<and> om_content m \<noteq> None \<and> hasLogger"

definition normalizeMessage :: "bool \<Rightarrow> OpenAIMessage \<Rightarrow> OpenAIMessage" where
  "normalizeMessage hasLogger m = (if normalizes hasLogger m then m\<lparr>om_content := None\<rparr> else m)"

text \<open>
  The request translator. It returns the target messages and the calls it made to the
  logger, in order.
\<close>

definition convertAnthropicToOpenAIMessages ::
  "js_builtins \<Rightarrow> Message list \<Rightarrow> SystemPrompt option \<Rightarrow> bool \<Rightarrow>
     OpenAIMessage list \<times> LogRecord list" where
  "convertAnthropicToOpenAIMessages env anthropicMessages anthropicSystem hasLogger =
     (let systemTextContent = systemText anthropicSystem;
          start = (if systemTextContent \<noteq> [] then [plain_message System_role systemTextContent]
                   else [],
                   systemWarnings hasLogger anthropicSystem);
          (msgs, logs) = foldl (convertMessage env hasLogger) start anthropicMessages
      in (map (normalizeMessage hasLogger) msgs,
          logs @ concat (map (\<lambda>m. if normalizes hasLogger m
                                   then [(Warning_level, MESSAGE_FORMAT_NORMALIZED)] else []) msgs)))"

subsection \<open>The response translator\<close>

record CompletionMessage =
  cm_content :: "string option"
  cm_tool_calls :: "ToolCall list option"

record CompletionChoice =
  choice_message :: CompletionMessage
  choice_finish_reason :: "string option"

record CompletionUsage =
  prompt_tokens :: nat
  completion_tokens :: nat

record ChatCompletion =
  completion_id :: string
  completion_choices :: "CompletionChoice list"
  completion_usage :: "CompletionUsage option"

record Usage =
  input_tokens :: nat
  usage_output_tokens :: nat

record MessagesResponse =
  response_id :: string
  response_model :: string
  response_content :: "ContentBlock list"
  stop_reason :: "StopReasonType option"
  response_usage :: Usage

text \<open>
  The own properties of the table of lines 369 to 375. It is an object literal, so the
  lookup of line 382 is \<open>lookup_or_end_turn\<close>, as in the streaming translator.
\<close>

definition stopReasonMap :: "string \<rightharpoonup> StopReasonType" where
  "stopReasonMap =
     [''stop'' \<mapsto> End_turn, ''length'' \<mapsto> Max_tokens, ''tool_calls'' \<mapsto> Tool_use,
      ''function_call'' \<mapsto> Tool_use, ''content_filter'' \<mapsto> Stop_sequence]"

text \<open>Lines 394 to 427: the input of a tool-use block from the arguments string of a call.\<close>

definition parseToolInput :: "js_builtins \<Rightarrow> bool \<Rightarrow> string \<Rightarrow> json \<times> LogRecord list" where
  "parseToolInput env hasLogger arguments =
     (case JSON_parse env arguments of
        None \<Rightarrow>
          (JObj [(''error_parsing_arguments'', JStr arguments)],
           if hasLogger then [(Error_level, TOOL_ARGS_PARSE_FAILURE)] else [])
      | Some parsedInput \<Rightarrow>
          (case parsedInput of
             JObj props \<Rightarrow> (parsedInput, [])
           | JArr items \<Rightarrow> (parsedInput, [])
           | _ \<Rightarrow>
               (JObj [(''value'', parsedInput)],
                if hasLogger then [(Warning_level, TOOL_ARGS_TYPE_MISMATCH)] else [])))"

text \<open>Lines 392 to 436: the loop over the tool calls of the first choice.\<close>

fun convertToolCalls ::
  "js_builtins \<Rightarrow> bool \<Rightarrow> ToolCall list \<Rightarrow> ContentBlock list \<times> LogRecord list" where
  "convertToolCalls env hasLogger [] = ([], [])"
| "convertToolCalls env hasLogger (call # calls) =
     (let (rest, restLogs) = convertToolCalls env hasLogger calls in
      if call_type call = ''function''
      then
        let (toolInputDict, l) = parseToolInput env hasLogger (function_arguments call)
        in (ContentBlockToolUse (call_id call) (function_name call) toolInputDict # rest,
            l @ restLogs)
      else (rest, restLogs))"

definition convertOpenAIToAnthropicResponse ::
  "js_builtins \<Rightarrow> ChatCompletion \<Rightarrow> string \<Rightarrow> bool \<Rightarrow> string \<Rightarrow>
     MessagesResponse \<times> LogRecord list" where
  "convertOpenAIToAnthropicResponse env openaiResponse originalAnthropicModelName hasLogger requestId =
     (let (anthropicContent, anthropicStopReason, logs) =
            (case completion_choices openaiResponse of
               [] \<Rightarrow> ([], None, [])
             | choice # others \<Rightarrow>
                 let message = choice_message choice;
                     finishReason = choice_finish_reason choice;
                     mapped = lookup_or_end_turn stopReasonMap
                                (case finishReason of None \<Rightarrow> [] | Some r \<Rightarrow> r);
                     textBlocks = (if truthy (cm_content message)
                                   then [ContentBlockText (value_of (cm_content message))] else [])
                 in (case cm_tool_calls message of
                       None \<Rightarrow> (textBlocks, Some mapped, [])
                     | Some calls \<Rightarrow>
                         let (toolBlocks, l) = convertToolCalls env hasLogger calls
                         in (textBlocks @ toolBlocks,
                             Some (if finishReason = Some ''tool_calls'' then Tool_use else mapped),
                             l)));
          content = (if anthropicContent = [] then [ContentBlockText []] else anthropicContent);
          anthropicUsage =
            (case completion_usage openaiResponse of
               None \<Rightarrow> \<lparr>input_tokens = 0, usage_output_tokens = 0\<rparr>
             | Some u \<Rightarrow> \<lparr>input_tokens = prompt_tokens u,
                           usage_output_tokens = completion_tokens u\<rparr>);
          responseId = (if completion_id openaiResponse \<noteq> []
                        then ''msg_'' @ completion_id openaiResponse
                        else ''msg_'' @ requestId @ ''_completed'')
      in (\<lparr>response_id = responseId, response_model = originalAnthropicModelName,
           response_content = content, stop_reason = anthropicStopReason,
           response_usage = anthropicUsage\<rparr>, logs))"

section \<open>The error mapper (errors.ts)\<close>

datatype AnthropicErrorType =
    INVALID_REQUEST
  | AUTHENTICATION
  | PERMISSION
  | NOT_FOUND
  | RATE_LIMIT
  | API_ERROR
  | OVERLOADED
  | REQUEST_TOO_LARGE

text \<open>The table of types.ts, lines 238 to 250.\<close>

definition STATUS_CODE_ERROR_MAP :: "nat \<rightharpoonup> AnthropicErrorType" where
  "STATUS_CODE_ERROR_MAP =
     [400 \<mapsto> INVALID_REQUEST, 401 \<mapsto> AUTHENTICATION, 403 \<mapsto> PERMISSION,
      404 \<mapsto> NOT_FOUND, 413 \<mapsto> REQUEST_TOO_LARGE, 422 \<mapsto> INVALID_REQUEST,
      429 \<mapsto> RATE_LIMIT, 500 \<mapsto> API_ERROR, 502 \<mapsto> API_ERROR, 503 \<mapsto> OVERLOADED,
      504 \<mapsto> API_ERROR]"

text \<open>
  The class of a caught exception, as far as the \<open>instanceof\<close> tests of the mapper tell
  classes apart: an \<open>Error\<close> outside the backend client's classes (\<open>Error\<close> itself,
  \<open>TypeError\<close>, \<open>SyntaxError\<close>, ...), the backend client's \<open>APIError\<close> (itself
  or a subclass that the mapper does not test for), or one of the six subclasses it
  tests for.
\<close>

datatype ErrorClass =
    PlainError
  | APIError
  | AuthenticationError
  | RateLimitError
  | BadRequestError
  | PermissionDeniedError
  | NotFoundError
  | InternalServerError

text \<open>
  \<open>exc_name\<close> is the \<open>name\<close> property of the exception, which \<open>String(exc)\<close> reads:
  \<open>Error\<close>, \<open>TypeError\<close>, ..., or whatever the thrower assigned to it.
\<close>

record Exception =
  exc_class :: ErrorClass
  exc_name :: string
  exc_message :: string
  exc_status :: "nat option"
  exc_body :: "json option"

record ProviderErrorMetadata =
  provider_name :: string
  raw_error :: "json option"

definition js_truthy :: "json \<Rightarrow> bool" where
  "js_truthy v =
     (case v of
        JNull \<Rightarrow> False
      | JBool b \<Rightarrow> b
      | JNum n \<Rightarrow> n \<noteq> 0
      | JStr s \<Rightarrow> s \<noteq> []
      | _ \<Rightarrow> True)"

definition is_object :: "json \<Rightarrow> bool" where
  "is_object v = (case v of JObj props \<Rightarrow> True | JArr items \<Rightarrow> True | _ \<Rightarrow> False)"

definition property :: "json \<Rightarrow> string \<Rightarrow> json option" where
  "property v k = (case v of JObj props \<Rightarrow> map_of props k | _ \<Rightarrow> None)"

text \<open>Lines 14 to 46.\<close>

definition extractProviderErrorDetails :: "js_builtins \<Rightarrow> json option \<Rightarrow> ProviderErrorMetadata option" where
  "extractProviderErrorDetails env errorDetails =
     (case errorDetails of
        None \<Rightarrow> None
      | Some details \<Rightarrow>
          if \<not> is_object details then None
          else
            (case property details ''metadata'' of
               None \<Rightarrow> None
             | Some metadata \<Rightarrow>
                 if \<not> is_object metadata then None
                 else
                   (case property metadata ''provider_name'' of
                      Some (JStr providerName) \<Rightarrow>
                        if providerName = [] then None
                        else
                          Some \<lparr>provider_name = providerName,
                                raw_error =
                                  (case property metadata ''raw'' of
                                     Some (JStr rawErrorStr) \<Rightarrow>
                                       (case JSON_parse env rawErrorStr of
                                          Some parsed \<Rightarrow> Some parsed
                                        | None \<Rightarrow>
                                            Some (JObj [(''raw_string_parse_failed'', JStr rawErrorStr)]))
                                   | Some raw \<Rightarrow> if is_object raw then Some raw else None
                                   | None \<Rightarrow> None)\<rparr>
                    | _ \<Rightarrow> None)))"

text \<open>
  \<open>String(exc)\<close>, that is \<open>Error.prototype.toString\<close>: the message when the name is
  empty, the name when the message is empty, and \<open>name: message\<close> otherwise. The
  classes of the backend client do not override the inherited name \<open>Error\<close>; an
  exception of another class has the name of its class or of its thrower's choosing.
\<close>

definition error_name :: "Exception \<Rightarrow> string" where
  "error_name exc = (if exc_class exc = PlainError then exc_name exc else ''Error'')"

definition String_of_exception :: "Exception \<Rightarrow> string" where
  "String_of_exception exc =
     (if error_name exc = [] then exc_message exc
      else if exc_message exc = [] then error_name exc
      else error_name exc @ '': '' @ exc_message exc)"

record ErrorDetails =
  errorType :: AnthropicErrorType
  errorMessage :: string
  statusCode :: nat
  providerDetails :: "ProviderErrorMetadata option"

text \<open>Lines 48 to 89.\<close>

definition getAnthropicErrorDetailsFromException :: "js_builtins \<Rightarrow> Exception \<Rightarrow> ErrorDetails" where
  "getAnthropicErrorDetailsFromException env exc =
     (let message = (if exc_message exc \<noteq> [] then exc_message exc else String_of_exception exc);
          isAPIError = (exc_class exc \<noteq> PlainError);
          status = (if isAPIError
                    then (case exc_status exc of
                            None \<Rightarrow> 500
                          | Some n \<Rightarrow> if n = 0 then 500 else n)
                    else 500);
          fromStatus = (if isAPIError
                        then (case STATUS_CODE_ERROR_MAP status of
                                Some t \<Rightarrow> t | None \<Rightarrow> API_ERROR)
                        else API_ERROR);
          provider =
            (if isAPIError
             then (case exc_body exc of
                     None \<Rightarrow> None
                   | Some body \<Rightarrow>
                       if is_object body
                       then extractProviderErrorDetails env
                              (Some (case property body ''error'' of
                                       Some e \<Rightarrow> if js_truthy e then e else body
                                     | None \<Rightarrow> body))
                       else None)
             else None);
          specific =
            (case exc_class exc of
               AuthenticationError \<Rightarrow> AUTHENTICATION
             | RateLimitError \<Rightarrow> RATE_LIMIT
             | BadRequestError \<Rightarrow> INVALID_REQUEST
             | PermissionDeniedError \<Rightarrow> PERMISSION
             | NotFoundError \<Rightarrow> NOT_FOUND
             | InternalServerError \<Rightarrow> API_ERROR
             | _ \<Rightarrow> fromStatus)
      in \<lparr>errorType = specific, errorMessage = message, statusCode = status,
          providerDetails = provider\<rparr>)"

section \<open>Specification tables, example inputs and invariants of the translators\<close>

definition ascii_lower :: "char \<Rightarrow> char" where
  "ascii_lower c =
     (let n = (of_char c :: nat) in if 65 \<le> n \<and> n \<le> 90 then char_of (n + 32) else c)"

text \<open>
  A stand-in for the runtime, used to evaluate the translators at concrete inputs:
  lower-casing of ASCII letters, \<open>String(_)\<close> that returns a string as it is, constant
  serializers (the examples serialize the empty object only) and a parser that accepts
  nothing.
\<close>

definition sample_builtins :: js_builtins where
  "sample_builtins =
     \<lparr>JSON_stringify = (\<lambda>v. Some ''{}''), JSON_parse = (\<lambda>s. None),
      stringify_parts = (\<lambda>ps. ''[]''),
      String_of = (\<lambda>v. case v of JStr s \<Rightarrow> s | _ \<Rightarrow> []),
      toLowerCase = map ascii_lower\<rparr>"

text \<open>The kind that the claim's table gives to a status.\<close>

definition claimed_kind_of_status :: "nat \<Rightarrow> AnthropicErrorType" where
  "claimed_kind_of_status n =
     (if n = 400 \<or> n = 422 then INVALID_REQUEST
      else if n = 401 then AUTHENTICATION
      else if n = 403 then PERMISSION
      else if n = 404 then NOT_FOUND
      else if n = 413 then REQUEST_TOO_LARGE
      else if n = 429 then RATE_LIMIT
      else if n = 500 \<or> n = 502 \<or> n = 504 then API_ERROR
      else if n = 503 then OVERLOADED
      else API_ERROR)"

text \<open>The kind of the six subtypes that the claim names.\<close>

definition subtype_kind :: "ErrorClass \<Rightarrow> AnthropicErrorType option" where
  "subtype_kind c =
     (case c of
        AuthenticationError \<Rightarrow> Some AUTHENTICATION
      | RateLimitError \<Rightarrow> Some RATE_LIMIT
      | BadRequestError \<Rightarrow> Some INVALID_REQUEST
      | PermissionDeniedError \<Rightarrow> Some PERMISSION
      | NotFoundError \<Rightarrow> Some NOT_FOUND
      | InternalServerError \<Rightarrow> Some API_ERROR
      | _ \<Rightarrow> None)"

text \<open>Scenario D of the specification: a rate-limit exception with status 429.\<close>

definition rate_limited :: Exception where
  "rate_limited =
     \<lparr>exc_class = RateLimitError, exc_name = ''Error'', exc_message = ''429 Too Many Requests'',
      exc_status = Some 429, exc_body = None\<rparr>"

text \<open>The invariant of the message loop behind claim C5.\<close>

definition null_content_inv :: "OpenAIMessage list \<Rightarrow> bool" where
  "null_content_inv msgs \<longleftrightarrow>
     (\<forall>m \<in> set msgs. om_tool_calls m \<noteq> None \<longrightarrow> om_content m = None)"

text \<open>Scenario E of the specification: an assistant message with a text and a tool-use block.\<close>

definition scenario_E :: "Message list" where
  "scenario_E =
     [\<lparr>msg_role = Assistant,
       msg_content = BlockContent
         [ContentBlockText ''Checking.'', ContentBlockToolUse ''t1'' ''get_weather'' (JObj [])]\<rparr>]"

text \<open>
  Messages without a system message, logs with the warning about the system prompt, and
  loop states that differ at most in what was logged.
\<close>

definition no_system :: "OpenAIMessage list \<Rightarrow> bool" where
  "no_system msgs \<longleftrightarrow> list_all (\<lambda>m. om_role m \<noteq> System_role) msgs"

definition adjusted :: "LogRecord list \<Rightarrow> bool" where
  "adjusted l \<longleftrightarrow> (Warning_level, SYSTEM_PROMPT_ADJUSTED) \<in> set l"

definition same_but_logs :: "BlockLoop \<Rightarrow> BlockLoop \<Rightarrow> bool" where
  "same_but_logs st st' \<longleftrightarrow>
     openaiMessages st = openaiMessages st' \<and>
     openaiPartsForUserMessage st = openaiPartsForUserMessage st' \<and>
     assistantToolCalls st = assistantToolCalls st' \<and>
     textContentForAssistant st = textContentForAssistant st'"

definition greeting :: "Message list" where
  "greeting = [\<lparr>msg_role = User, msg_content = StringContent ''hi''\<rparr>]"

text \<open>
  The serialized content of a tool result in the words of the specification: a string
  is passed through; of an array, the text of each text-typed item and the JSON
  serialization of each other item, or a placeholder that names the item's type when
  the serialization fails, are joined by newlines.
\<close>

definition claimed_json_text :: "js_builtins \<Rightarrow> json \<Rightarrow> string" where
  "claimed_json_text env item =
     (case JSON_stringify env item of
        Some s \<Rightarrow> s
      | None \<Rightarrow> ''<unserializable_item type='' @ [CHR 0x27] @ js_typeof item @ [CHR 0x27] @ ''>'')"

definition claimed_item_text :: "js_builtins \<Rightarrow> json \<Rightarrow> string" where
  "claimed_item_text env item =
     (case item of
        JObj props \<Rightarrow>
          (case (map_of props ''type'', map_of props ''text'') of
             (Some ty, Some t) \<Rightarrow>
               if ty = JStr ''text'' then String_of env t else claimed_json_text env item
           | _ \<Rightarrow> claimed_json_text env item)
      | _ \<Rightarrow> claimed_json_text env item)"

definition claimed_serialized_content :: "js_builtins \<Rightarrow> ToolResultContent \<Rightarrow> string" where
  "claimed_serialized_content env c =
     (case c of
        ResultString s \<Rightarrow> s
      | ResultArray items \<Rightarrow> join newline (map (claimed_item_text env) items))"

text \<open>
  Two tool results: a string, and an array of a text item and an item without a type.
\<close>

definition sample_tool_results :: "(string \<times> ToolResultContent) list" where
  "sample_tool_results =
     [(''toolu_1'', ResultString ''42''),
      (''toolu_2'', ResultArray [JObj [(''type'', JStr ''text''), (''text'', JStr ''sunny'')],
                                JObj []])]"

text \<open>The id and name of a tool-use block.\<close>

fun tool_use_of :: "ContentBlock \<Rightarrow> (string \<times> string) list" where
  "tool_use_of (ContentBlockToolUse tid tname input) = [(tid, tname)]"
| "tool_use_of b = []"

text \<open>The ids and names of the tool-use blocks that assistant messages supply, in order.\<close>

definition message_tool_uses :: "Message \<Rightarrow> (string \<times> string) list" where
  "message_tool_uses m =
     (case msg_role m of
        User \<Rightarrow> []
      | Assistant \<Rightarrow>
          (case msg_content m of
             StringContent s \<Rightarrow> []
           | BlockContent blocks \<Rightarrow> concat (map tool_use_of blocks)))"

definition source_tool_uses :: "Message list \<Rightarrow> (string \<times> string) list" where
  "source_tool_uses msgs = concat (map message_tool_uses msgs)"

text \<open>A completion whose first choice carries the content and the tool calls of a target message.\<close>

definition completion_of ::
  "string \<Rightarrow> OpenAIMessage \<Rightarrow> string option \<Rightarrow> CompletionUsage option \<Rightarrow> ChatCompletion" where
  "completion_of cid m finishReason usage =
     \<lparr>completion_id = cid,
      completion_choices =
        [\<lparr>choice_message = \<lparr>cm_content = om_content m, cm_tool_calls = om_tool_calls m\<rparr>,
          choice_finish_reason = finishReason\<rparr>],
      completion_usage = usage\<rparr>"

text \<open>The ids and names of the tool-use blocks of a response.\<close>

definition response_tool_uses :: "MessagesResponse \<Rightarrow> (string \<times> string) list" where
  "response_tool_uses r = concat (map tool_use_of (response_content r))"

text \<open>The id and name of a tool call, and the tool calls of a list of target messages.\<close>

definition call_key :: "ToolCall \<Rightarrow> string \<times> string" where
  "call_key tc = (call_id tc, function_name tc)"

definition calls_of :: "OpenAIMessage list \<Rightarrow> ToolCall list" where
  "calls_of msgs = concat (map (\<lambda>m. case om_tool_calls m of None \<Rightarrow> [] | Some tcs \<Rightarrow> tcs) msgs)"

section \<open>Verification of the streaming translator\<close>

subsection \<open>Event sequences\<close>

lemma start_indices_append [simp]: "start_indices (xs @ ys) = start_indices xs @ start_indices ys"
  by (simp add: start_indices_def)
lemma text_start_indices_append [simp]:
  "text_start_indices (xs @ ys) = text_start_indices xs @ text_start_indices ys"
  by (simp add: text_start_indices_def)
lemma tool_start_indices_append [simp]:
  "tool_start_indices (xs @ ys) = tool_start_indices xs @ tool_start_indices ys"
  by (simp add: tool_start_indices_def)
lemma stop_indices_append [simp]: "stop_indices (xs @ ys) = stop_indices xs @ stop_indices ys"
  by (simp add: stop_indices_def)

lemma start_indices_simps [simp]:
  "start_indices [] = []" "start_indices (e # es) = starts_of e @ start_indices es"
  by (simp_all add: start_indices_def)
lemma text_start_indices_simps [simp]:
  "text_start_indices [] = []"
  "text_start_indices (e # es) = text_starts_of e @ text_start_indices es"
  by (simp_all add: text_start_indices_def)
lemma tool_start_indices_simps [simp]:
  "tool_start_indices [] = []"
  "tool_start_indices (e # es) = tool_starts_of e @ tool_start_indices es"
  by (simp_all add: tool_start_indices_def)
lemma stop_indices_simps [simp]:
  "stop_indices [] = []" "stop_indices (e # es) = stops_of e @ stop_indices es"
  by (simp_all add: stop_indices_def)

lemma set_starts_of: "set (starts_of e) = set (text_starts_of e) \<union> set (tool_starts_of e)"
  by (cases e rule: text_starts_of.cases) auto

lemma count_starts_of:
  "count_list (starts_of e) i = count_list (text_starts_of e) i + count_list (tool_starts_of e) i"
  by (cases e rule: text_starts_of.cases) auto

lemma count_start_indices:
  "count_list (start_indices evs) i =
     count_list (text_start_indices evs) i + count_list (tool_start_indices evs) i"
  by (induction evs) (auto simp: count_starts_of)

lemma set_start_indices:
  "set (start_indices evs) = set (text_start_indices evs) \<union> set (tool_start_indices evs)"
  by (induction evs) (auto simp: set_starts_of)

lemma deltas_started_append:
  "deltas_started seen (xs @ ys) \<longleftrightarrow>
     deltas_started seen xs \<and> deltas_started (seen \<union> set (start_indices xs)) ys"
  by (induction xs arbitrary: seen) (auto simp: Un_assoc)

lemma body_no_stops: "\<forall>e \<in> set evs. body_event e \<Longrightarrow> stop_indices evs = []"
  by (induction evs) (auto elim: body_event.elims)

subsection \<open>The loop keeps the invariant and raises no TypeError\<close>

lemma stream_inv_content:
  assumes "stream_inv s" and "handleContentDelta enc s c = Inr s'"
  shows "stream_inv s'"
proof (cases "\<exists>frag n. c = Some frag \<and> frag \<noteq> [] \<and> enc frag = Inr n")
  case False
  with assms(2) have "s' = s"
    by (auto simp: handleContentDelta_def split: option.splits if_splits sum.splits)
  with assms(1) show ?thesis by simp
next
  case True
  then obtain frag n where c: "c = Some frag" "frag \<noteq> []" "enc frag = Inr n" by blast
  show ?thesis
  proof (cases "textBlockAnthropicIdx s")
    case None
    with assms(2) c have "s' = s\<lparr>outputTokenCount := outputTokenCount s + n,
        textBlockAnthropicIdx := Some (nextAnthropicBlockIdx s),
        nextAnthropicBlockIdx := Suc (nextAnthropicBlockIdx s),
        written := written s @
          [ContentBlockStart (nextAnthropicBlockIdx s) (Text_block []),
           ContentBlockDelta (nextAnthropicBlockIdx s) (Text_delta frag)]\<rparr>"
      by (simp add: handleContentDelta_def writeSSE_def Let_def)
    with assms(1) None show ?thesis
      unfolding stream_inv_def
      by (auto simp: deltas_started_append text_list_def less_Suc_eq)
  next
    case (Some t)
    with assms(2) c have "s' = s\<lparr>outputTokenCount := outputTokenCount s + n,
        written := written s @ [ContentBlockDelta t (Text_delta frag)]\<rparr>"
      by (simp add: handleContentDelta_def writeSSE_def Let_def)
    with assms(1) Some show ?thesis
      unfolding stream_inv_def
      by (auto simp: deltas_started_append set_start_indices text_list_def)
  qed
qed


lemma resolve_inv:
  assumes "stream_inv s" and "resolveToolBlock rid s td = (s', cur)"
  shows "stream_inv s'"
    and "openaiToolIdxToAnthropicBlockIdx s' (tc_index td) = Some cur"
    and "written s' = written s"
    and "sentToolBlockStarts s' = sentToolBlockStarts s"
proof -
  show "openaiToolIdxToAnthropicBlockIdx s' (tc_index td) = Some cur"
    using assms(2) by (auto simp: resolveToolBlock_def Let_def split: option.splits)
  show "written s' = written s"
    using assms(2) by (auto simp: resolveToolBlock_def Let_def split: option.splits)
  show "sentToolBlockStarts s' = sentToolBlockStarts s"
    using assms(2) by (auto simp: resolveToolBlock_def Let_def split: option.splits)
  show "stream_inv s'"
  proof (cases "openaiToolIdxToAnthropicBlockIdx s (tc_index td)")
    case (Some i)
    then show ?thesis using assms by (simp add: resolveToolBlock_def)
  next
    case None
    then obtain ts where s': "s' = s\<lparr>nextAnthropicBlockIdx := nextAnthropicBlockIdx s + 1,
             openaiToolIdxToAnthropicBlockIdx :=
               (openaiToolIdxToAnthropicBlockIdx s)(tc_index td \<mapsto> nextAnthropicBlockIdx s),
             toolStates := (toolStates s)(nextAnthropicBlockIdx s \<mapsto> ts)\<rparr>"
      using assms(2) by (auto simp: resolveToolBlock_def Let_def)
    have sub: "ran (openaiToolIdxToAnthropicBlockIdx s)
                 \<subseteq> ran ((openaiToolIdxToAnthropicBlockIdx s)(tc_index td \<mapsto> nextAnthropicBlockIdx s))"
      using None by (simp add: ran_map_upd subset_insertI)
    show ?thesis
      using assms(1) sub unfolding stream_inv_def s'
      by (auto simp: less_Suc_eq)
  qed
qed

lemma processToolDelta_inv:
  assumes "stream_inv s" and "processToolDelta rid enc s td = Inr s'"
  shows "stream_inv s'"
proof -
  obtain s1 cur where r: "resolveToolBlock rid s td = (s1, cur)"
    by (cases "resolveToolBlock rid s td")
  note R = resolve_inv[OF assms(1) r]
  from R(1,2) obtain old where old: "toolStates s1 cur = Some old"
    unfolding stream_inv_def by blast
  have cur_ran: "cur \<in> ran (openaiToolIdxToAnthropicBlockIdx s1)"
    using R(2) by (auto simp: ran_def)
  have cur_text: "textBlockAnthropicIdx s1 \<noteq> Some cur"
    using R(1,2) unfolding stream_inv_def by blast
  have fresh: "cur \<notin> set (sentToolBlockStarts s1) \<Longrightarrow> cur \<notin> set (start_indices (written s1))"
    using R(1) cur_text unfolding stream_inv_def
    by (auto simp: set_start_indices text_list_def split: option.splits)
  have started: "cur \<in> set (sentToolBlockStarts s1) \<Longrightarrow> cur \<in> set (start_indices (written s1))"
    using R(1) unfolding stream_inv_def by (auto simp: set_start_indices)
  show ?thesis
    using assms(2) R(1) old cur_ran fresh started
    unfolding processToolDelta_def r stream_inv_def writeSSE_def set_add_def Let_def
    by (auto simp: deltas_started_append split: option.splits sum.splits if_splits)
qed


lemma processToolDeltas_inv:
  "stream_inv s \<Longrightarrow> processToolDeltas rid enc s tds = Inr s' \<Longrightarrow> stream_inv s'"
proof (induction tds arbitrary: s)
  case Nil
  then show ?case by simp
next
  case (Cons td tds)
  from Cons.prems(2) obtain s1 where s1: "processToolDelta rid enc s td = Inr s1"
    and rest: "processToolDeltas rid enc s1 tds = Inr s'"
    by (auto split: sum.splits)
  from Cons.prems(1) s1 have "stream_inv s1" by (rule processToolDelta_inv)
  then show ?case using rest by (rule Cons.IH)
qed


lemma processDelta_inv:
  assumes "stream_inv s" and "processDelta rid enc s d = Inr s'"
  shows "stream_inv s'"
proof -
  from assms(2) obtain s1 where s1: "handleContentDelta enc s (content d) = Inr s1"
    and rest: "(case tool_calls d of None \<Rightarrow> Inr s1
                | Some tds \<Rightarrow> processToolDeltas rid enc s1 tds) = Inr s'"
    by (auto simp: processDelta_def split: sum.splits)
  from assms(1) s1 have "stream_inv s1" by (rule stream_inv_content)
  with rest show ?thesis
    by (cases "tool_calls d") (auto dest: processToolDeltas_inv)
qed


lemma consumeStream_inv:
  "stream_inv s \<Longrightarrow> consumeStream rid enc s items = (ex, s') \<Longrightarrow> \<forall>m. ex \<noteq> Threw m \<Longrightarrow>
   stream_inv s'"
proof (induction items arbitrary: s)
  case Nil
  then show ?case by simp
next
  case (Cons it items)
  show ?case
  proof (cases it)
    case (Fails msg)
    with Cons.prems show ?thesis by simp
  next
    case (Yield chunk)
    show ?thesis
    proof (cases "choices chunk")
      case Nil
      with Cons Yield show ?thesis by simp
    next
      case (Cons choice cs)
      show ?thesis
      proof (cases "processDelta rid enc s (delta choice)")
        case (Inl failure)
        with Cons.prems(2,3) Yield Cons show ?thesis by (auto split: prod.splits)
      next
        case (Inr s2)
        with Cons.prems(1) have "stream_inv s2" by (rule processDelta_inv)
        with Cons.prems(2,3) Cons.IH[of s2] Inr Yield Cons show ?thesis
          by (auto split: if_splits)
      qed
    qed
  qed
qed

subsection \<open>The output of a completed run\<close>

lemma written_fold_writeSSE:
  "written (fold (\<lambda>i. writeSSE (f i)) xs s) = written s @ map f xs"
  by (induction xs arbitrary: s) (auto simp: writeSSE_def)

lemma outputTokenCount_fold_writeSSE:
  "outputTokenCount (fold (\<lambda>i. writeSSE (f i)) xs s) = outputTokenCount s"
  by (induction xs arbitrary: s) (auto simp: writeSSE_def)

lemma written_sendContentBlockStops:
  "written (sendContentBlockStops s) =
     written s @ map ContentBlockStop (text_list (textBlockAnthropicIdx s) @ sentToolBlockStarts s)"
  by (cases "textBlockAnthropicIdx s")
     (auto simp: sendContentBlockStops_def written_fold_writeSSE writeSSE_def text_list_def)

lemma outputTokenCount_sendContentBlockStops:
  "outputTokenCount (sendContentBlockStops s) = outputTokenCount s"
  by (cases "textBlockAnthropicIdx s")
     (auto simp: sendContentBlockStops_def outputTokenCount_fold_writeSSE writeSSE_def)

lemma stream_inv_started: "stream_inv (startedState rid uuid8 model n)"
  by (simp add: startedState_def stream_inv_def initialState_def writeSSE_def text_list_def)

lemma handler_completed:
  assumes "streamStatusCode
             (handleAnthropicStreamingResponseFromOpenAIStream items model n rid uuid8 enc) = 200"
  obtains ex s where
    "consumeStream rid enc (startedState rid uuid8 model n) items = (ex, s)"
    "\<forall>m. ex \<noteq> Threw m"
    "stream_inv s"
    "sse (handleAnthropicStreamingResponseFromOpenAIStream items model n rid uuid8 enc) =
       written s @
       map ContentBlockStop (text_list (textBlockAnthropicIdx s) @ sentToolBlockStarts s) @
       [MessageDelta (exit_reason ex) (outputTokenCount s), MessageStop]"
proof -
  obtain ex s where c: "consumeStream rid enc (startedState rid uuid8 model n) items = (ex, s)"
    by (cases "consumeStream rid enc (startedState rid uuid8 model n) items")
  have nt: "\<forall>m. ex \<noteq> Threw m"
    using assms c
    by (auto simp: handleAnthropicStreamingResponseFromOpenAIStream_def startedState_def Let_def)
  have inv: "stream_inv s"
    using consumeStream_inv[OF stream_inv_started c nt] .
  have "sse (handleAnthropicStreamingResponseFromOpenAIStream items model n rid uuid8 enc) =
       written s @
       map ContentBlockStop (text_list (textBlockAnthropicIdx s) @ sentToolBlockStarts s) @
       [MessageDelta (exit_reason ex) (outputTokenCount s), MessageStop]"
    using c nt
    by (cases ex)
       (auto simp: handleAnthropicStreamingResponseFromOpenAIStream_def startedState_def Let_def
          exit_reason_def writeSSE_def written_sendContentBlockStops
          outputTokenCount_sendContentBlockStops)
  with c nt inv show ?thesis using that by blast
qed


subsection \<open>Block life cycles\<close>

lemma append_split_left:
  assumes "xs @ ys = pre @ e # post" and "e \<notin> set ys"
  obtains post' where "xs = pre @ e # post'" and "post = post' @ ys"
proof -
  from assms(1) consider us where "xs = pre @ us" "us @ ys = e # post"
    | us where "xs @ us = pre" "ys = us @ e # post"
    by (auto simp: append_eq_append_conv2)
  then show ?thesis
  proof cases
    case 1
    with assms(2) obtain us' where "us = e # us'" by (cases us) auto
    with 1 that show ?thesis by auto
  next
    case 2
    with assms(2) show ?thesis by auto
  qed
qed

lemma append_split_right:
  assumes "xs @ ys = pre @ e # post" and "e \<notin> set xs"
  obtains pre' where "pre = xs @ pre'" and "ys = pre' @ e # post"
proof -
  from assms(1) consider us where "xs = pre @ us" "us @ ys = e # post"
    | us where "xs @ us = pre" "ys = us @ e # post"
    by (auto simp: append_eq_append_conv2)
  then show ?thesis
  proof cases
    case 1
    with assms(2) have "us = []" by (cases us) auto
    with 1 that[of "[]"] show ?thesis by auto
  next
    case 2
    with that show ?thesis by auto
  qed
qed

lemma deltas_started_split:
  assumes "deltas_started {} (pre @ e # post)" and "i \<in> set (deltas_of e)"
  shows "i \<in> set (start_indices pre)"
  using assms by (auto simp: deltas_started_append)

lemma distinct_count_list: "distinct xs \<Longrightarrow> x \<in> set xs \<Longrightarrow> count_list xs x = 1"
  by (induction xs) auto

lemma stop_indices_map_stop [simp]: "stop_indices (map ContentBlockStop xs) = xs"
  by (induction xs) auto

lemma start_indices_map_stop [simp]: "start_indices (map ContentBlockStop xs) = []"
  by (induction xs) auto

lemma text_start_indices_map_stop [simp]: "text_start_indices (map ContentBlockStop xs) = []"
  by (induction xs) auto

lemma tool_start_indices_map_stop [simp]: "tool_start_indices (map ContentBlockStop xs) = []"
  by (induction xs) auto

text \<open>
  Claim C1: when the handler processes a stream without an exception, every block index
  \<open>i\<close> that occurs in a start, delta or stop event of the output has exactly one start
  and exactly one stop; every delta for \<open>i\<close> has the start before it and the stop after
  it; and the stop has the start before it and MessageStop after it.
\<close>

theorem C1_block_lifecycle:
  assumes ok: "streamStatusCode
             (handleAnthropicStreamingResponseFromOpenAIStream items model n rid uuid8 enc) = 200"
    and e: "e \<in> set (sse (handleAnthropicStreamingResponseFromOpenAIStream items model n rid uuid8 enc))"
    and i: "i \<in> set (event_indices e)"
  shows "block_lifecycle i
           (sse (handleAnthropicStreamingResponseFromOpenAIStream items model n rid uuid8 enc))"
proof -
  let ?evs = "sse (handleAnthropicStreamingResponseFromOpenAIStream items model n rid uuid8 enc)"
  from ok obtain ex s where inv: "stream_inv s"
    and evs: "?evs = written s @
       map ContentBlockStop (text_list (textBlockAnthropicIdx s) @ sentToolBlockStarts s) @
       [MessageDelta (exit_reason ex) (outputTokenCount s), MessageStop]"
    by (rule handler_completed)
  let ?W = "written s"
  let ?L = "text_list (textBlockAnthropicIdx s) @ sentToolBlockStarts s"
  let ?T = "map ContentBlockStop ?L @ [MessageDelta (exit_reason ex) (outputTokenCount s), MessageStop]"
  have evs': "?evs = ?W @ ?T" using evs by simp
  have body: "\<forall>e \<in> set ?W. body_event e" and ds: "deltas_started {} ?W"
    and toolW: "tool_start_indices ?W = sentToolBlockStarts s"
    and textW: "text_start_indices ?W = text_list (textBlockAnthropicIdx s)"
    and dsent: "distinct (sentToolBlockStarts s)"
    using inv unfolding stream_inv_def by blast+
  have text_notin: "\<And>t. textBlockAnthropicIdx s = Some t \<Longrightarrow> t \<notin> set (sentToolBlockStarts s)"
    using inv unfolding stream_inv_def ran_def by blast
  have dL: "distinct ?L"
    using dsent text_notin by (cases "textBlockAnthropicIdx s") (auto simp: text_list_def)
  have setL: "set (start_indices ?W) = set ?L"
    using toolW textW by (auto simp: set_start_indices)
  have countL: "\<And>j. count_list (start_indices ?W) j = count_list ?L j"
    using toolW textW by (simp add: count_start_indices)
  have nostopW: "stop_indices ?W = []" using body by (rule body_no_stops)
  have stop_notin_W: "\<And>j. ContentBlockStop j \<notin> set ?W" using body by auto
  have delta_notin_T: "\<And>x. i \<in> set (deltas_of x) \<Longrightarrow> x \<notin> set ?T" by auto
  have iL: "i \<in> set ?L"
  proof -
    from e evs' have "e \<in> set ?W \<or> e \<in> set ?T" by auto
    then show ?thesis
    proof
      assume eW: "e \<in> set ?W"
      then obtain pre post where sp: "?W = pre @ e # post" by (auto simp: in_set_conv_decomp)
      from eW body have "body_event e" by blast
      with i have "i \<in> set (starts_of e) \<or> i \<in> set (deltas_of e)"
        by (cases e) (auto simp: event_indices_def)
      then have "i \<in> set (start_indices ?W)"
      proof
        assume "i \<in> set (starts_of e)"
        then show ?thesis by (subst sp) simp
      next
        assume "i \<in> set (deltas_of e)"
        with ds sp have "i \<in> set (start_indices pre)" by (simp add: deltas_started_split)
        then show ?thesis by (subst sp) simp
      qed
      with setL show ?thesis by simp
    next
      assume "e \<in> set ?T"
      with i show ?thesis by (auto simp: event_indices_def)
    qed
  qed
  have c1: "count_list (start_indices ?evs) i = 1"
    using distinct_count_list[OF dL iL] countL by (simp add: evs)
  have c2: "count_list (stop_indices ?evs) i = 1"
    using distinct_count_list[OF dL iL] nostopW by (simp add: evs)
  have c3: "i \<in> set (start_indices pre) \<and> i \<in> set (stop_indices post)"
    if sp: "?evs = pre @ x # post" and d: "i \<in> set (deltas_of x)" for pre x post
  proof -
    from sp evs' have "?W @ ?T = pre @ x # post" by simp
    then obtain post' where W: "?W = pre @ x # post'" and post: "post = post' @ ?T"
      using delta_notin_T[OF d] by (rule append_split_left)
    from ds W d have "i \<in> set (start_indices pre)" by (simp add: deltas_started_split)
    moreover have "i \<in> set (stop_indices post)" using iL by (simp add: post)
    ultimately show ?thesis by simp
  qed
  have c4: "i \<in> set (start_indices pre) \<and> MessageStop \<in> set post"
    if sp: "?evs = pre @ ContentBlockStop i # post" for pre post
  proof -
    from sp evs' have "?W @ ?T = pre @ ContentBlockStop i # post" by simp
    then obtain pre' where pre: "pre = ?W @ pre'" and T: "?T = pre' @ ContentBlockStop i # post"
      using stop_notin_W by (rule append_split_right)
    have "i \<in> set (start_indices pre)" using iL setL by (simp add: pre)
    moreover have "MessageStop \<in> set post"
    proof (cases post rule: rev_cases)
      case Nil
      with T have "last ?T = ContentBlockStop i" by (metis last_snoc append_Cons append_Nil last_appendR list.distinct(1) last_ConsL)
      then show ?thesis by simp
    next
      case (snoc ys y)
      with T have "last ?T = y" by (metis append_assoc append_Cons last_snoc)
      then have "y = MessageStop" by simp
      with snoc show ?thesis by simp
    qed
    ultimately show ?thesis by simp
  qed
  show ?thesis unfolding block_lifecycle_def using c1 c2 c3 c4 by blast
qed

lemma scenario_C_run:
  "handleAnthropicStreamingResponseFromOpenAIStream scenario_C ''claude'' 7 ''req'' ''abcd1234'' dummyEncoder =
     \<lparr>sse = [MessageStart ''msg_stream_req_abcd1234'' ''claude'' 7, Ping,
       ContentBlockStart 0 (Tool_use_block ''t1'' ''get_weather''),
       ContentBlockDelta 0 (Input_json_delta ''{c''),
       ContentBlockDelta 0 (Input_json_delta ''ity}''), ContentBlockStop 0,
       MessageDelta Tool_use 6, MessageStop],
      streamStatusCode = 200, finalAnthropicStopReason = Tool_use, output_tokens = 6\<rparr>"
  by code_simp

text \<open>
  Claim C1 at the stream of the specification's scenario C, whose block 0 has a start,
  two deltas and a stop.
\<close>

theorem C1_block_lifecycle_witness:
  "streamStatusCode
     (handleAnthropicStreamingResponseFromOpenAIStream scenario_C ''claude'' 7 ''req'' ''abcd1234'' dummyEncoder) = 200 \<and>
   ContentBlockDelta 0 (Input_json_delta ''{c'') \<in> set (sse
     (handleAnthropicStreamingResponseFromOpenAIStream scenario_C ''claude'' 7 ''req'' ''abcd1234'' dummyEncoder)) \<and>
   0 \<in> set (event_indices (ContentBlockDelta 0 (Input_json_delta ''{c''))) \<and>
   block_lifecycle 0 (sse
     (handleAnthropicStreamingResponseFromOpenAIStream scenario_C ''claude'' 7 ''req'' ''abcd1234'' dummyEncoder))"
  using C1_block_lifecycle [of scenario_C "''claude''" 7 "''req''" "''abcd1234''" dummyEncoder
      "ContentBlockDelta 0 (Input_json_delta ''{c'')" 0]
  by (simp add: scenario_C_run event_indices_def)

subsection \<open>The order of the stop events\<close>

text \<open>
  Claim C3, as the handler does it: when the stream is processed without an exception, the
  stop events form one run that follows every start and delta and directly precedes the
  final MessageDelta and MessageStop; the run holds the stop of the text block first, if
  one was opened, and then the stop of every tool block whose start was emitted, in the
  order in which those starts were emitted.
\<close>

theorem C3_stops_in_start_order:
  assumes "streamStatusCode
             (handleAnthropicStreamingResponseFromOpenAIStream items model n rid uuid8 enc) = 200"
  shows "\<exists>body reason k.
           sse (handleAnthropicStreamingResponseFromOpenAIStream items model n rid uuid8 enc) =
             body @ map ContentBlockStop (text_start_indices body @ tool_start_indices body) @
             [MessageDelta reason k, MessageStop] \<and>
           stop_indices body = []"
proof -
  from assms obtain ex s where inv: "stream_inv s"
    and evs: "sse (handleAnthropicStreamingResponseFromOpenAIStream items model n rid uuid8 enc) =
       written s @
       map ContentBlockStop (text_list (textBlockAnthropicIdx s) @ sentToolBlockStarts s) @
       [MessageDelta (exit_reason ex) (outputTokenCount s), MessageStop]"
    by (rule handler_completed)
  have "text_start_indices (written s) = text_list (textBlockAnthropicIdx s)"
    and "tool_start_indices (written s) = sentToolBlockStarts s"
    and "stop_indices (written s) = []"
    using inv body_no_stops[of "written s"] unfolding stream_inv_def by blast+
  with evs show ?thesis by metis
qed

lemma reordered_stream_run:
  "handleAnthropicStreamingResponseFromOpenAIStream reordered_stream ''claude'' 7 ''req'' ''abcd1234'' dummyEncoder =
     \<lparr>sse = [MessageStart ''msg_stream_req_abcd1234'' ''claude'' 7, Ping,
       ContentBlockStart 1 (Tool_use_block ''b'' ''g''),
       ContentBlockStart 0 (Tool_use_block ''a'' ''f''),
       ContentBlockStop 1, ContentBlockStop 0,
       MessageDelta Tool_use 1, MessageStop],
      streamStatusCode = 200, finalAnthropicStopReason = Tool_use, output_tokens = 1\<rparr>"
  by code_simp

text \<open>
  Claim C3 as stated fails: backend call 0 first arrives without an id (block 0 gets a
  placeholder), call 1 arrives complete (block 1 starts), then call 0 receives its id and
  name (block 0 starts). The stops follow the order of the starts, 1 before 0.
\<close>

theorem C3_counterexample:
  "streamStatusCode
     (handleAnthropicStreamingResponseFromOpenAIStream reordered_stream ''claude'' 7 ''req'' ''abcd1234'' dummyEncoder) = 200 \<and>
   stop_indices (sse
     (handleAnthropicStreamingResponseFromOpenAIStream reordered_stream ''claude'' 7 ''req'' ''abcd1234'' dummyEncoder)) = [1, 0] \<and>
   \<not> sorted (stop_indices (sse
     (handleAnthropicStreamingResponseFromOpenAIStream reordered_stream ''claude'' 7 ''req'' ''abcd1234'' dummyEncoder)))"
  by (simp add: reordered_stream_run)

text \<open>
  Claim C3 at the stream above.
\<close>

theorem C3_stops_in_start_order_witness:
  "streamStatusCode
     (handleAnthropicStreamingResponseFromOpenAIStream reordered_stream ''claude'' 7 ''req'' ''abcd1234'' dummyEncoder) = 200 \<and>
   (\<exists>body reason k.
      sse (handleAnthropicStreamingResponseFromOpenAIStream reordered_stream ''claude'' 7 ''req'' ''abcd1234'' dummyEncoder) =
        body @ map ContentBlockStop (text_start_indices body @ tool_start_indices body) @
        [MessageDelta reason k, MessageStop] \<and>
      stop_indices body = [])"
  using C3_stops_in_start_order [of reordered_stream "''claude''" 7 "''req''" "''abcd1234''" dummyEncoder]
  by (simp add: reordered_stream_run)

subsection \<open>The final stop reason\<close>







subsection \<open>Tool-call deltas\<close>




lemma fragment_nonempty: "arguments_fragment td = Some a \<Longrightarrow> a \<noteq> []"
  by (auto simp: arguments_fragment_def split: option.splits if_splits)









text \<open>The states through which the loop passes are reachable.\<close>

lemma processToolDeltas_reachable:
  "reachable rid enc s \<Longrightarrow> processToolDeltas rid enc s tds = Inr s' \<Longrightarrow> reachable rid enc s'"
proof (induction tds arbitrary: s)
  case Nil
  then show ?case by simp
next
  case (Cons td tds)
  from Cons.prems(2) obtain s1 where s1: "processToolDelta rid enc s td = Inr s1"
    and rest: "processToolDeltas rid enc s1 tds = Inr s'"
    by (auto split: sum.splits)
  from Cons.prems(1) s1 have "reachable rid enc s1" by (rule reachable.tool_delta)
  then show ?case using rest by (rule Cons.IH)
qed

lemma processDelta_reachable:
  assumes "reachable rid enc s" and "processDelta rid enc s d = Inr s'"
  shows "reachable rid enc s'"
proof -
  from assms(2) obtain s1 where s1: "handleContentDelta enc s (content d) = Inr s1"
    and rest: "(case tool_calls d of None \<Rightarrow> Inr s1
                | Some tds \<Rightarrow> processToolDeltas rid enc s1 tds) = Inr s'"
    by (auto simp: processDelta_def split: sum.splits)
  from assms(1) s1 have "reachable rid enc s1" by (rule reachable.content_delta)
  then show ?thesis
    using rest processToolDeltas_reachable[of rid enc s1]
    by (cases "tool_calls d") auto
qed

lemma consumeStream_reachable:
  "reachable rid enc s \<Longrightarrow> consumeStream rid enc s items = (ex, s') \<Longrightarrow>
   (\<forall>m. ex \<noteq> Threw m) \<Longrightarrow> reachable rid enc s'"
proof (induction items arbitrary: s)
  case Nil
  then show ?case by simp
next
  case (Cons it items)
  show ?case
  proof (cases it)
    case (Fails msg)
    with Cons.prems show ?thesis by simp
  next
    case (Yield chunk)
    show ?thesis
    proof (cases "choices chunk")
      case Nil
      with Cons Yield show ?thesis by simp
    next
      case (Cons choice cs)
      show ?thesis
      proof (cases "processDelta rid enc s (delta choice)")
        case (Inl failure)
        with Cons.prems(2,3) Yield Cons show ?thesis
          by (cases failure) auto
      next
        case (Inr s2)
        with Cons.prems(1) have r2: "reachable rid enc s2" by (rule processDelta_reachable)
        show ?thesis
          using Cons.prems(2,3) Cons.IH[OF r2] Inr r2 Yield Cons
          by (auto split: if_splits)
      qed
    qed
  qed
qed




section \<open>Verification of the translators and the error mapper\<close>

subsection \<open>Model selection\<close>

text \<open>
  Claim C9: the selector returns the big name when the lower-cased client name contains
  opus or sonnet, else the small name when it contains haiku, else the small name; it
  logs the warning exactly in the last case. The function is total: it returns a name
  for every input.
\<close>

theorem C9_selectTargetModel:
  "fst (selectTargetModel env clientModelName big small) =
     (if str_includes (toLowerCase env clientModelName) ''opus'' \<or>
         str_includes (toLowerCase env clientModelName) ''sonnet'' then big
      else if str_includes (toLowerCase env clientModelName) ''haiku'' then small
      else small) \<and>
   ((Warning_level, MODEL_SELECTION) \<in> set (snd (selectTargetModel env clientModelName big small)) \<longleftrightarrow>
      \<not> (str_includes (toLowerCase env clientModelName) ''opus'' \<or>
         str_includes (toLowerCase env clientModelName) ''sonnet'' \<or>
         str_includes (toLowerCase env clientModelName) ''haiku''))"
  by (simp add: selectTargetModel_def Let_def)

lemma scenario_A_lower:
  "str_includes (toLowerCase sample_builtins ''claude-3-Opus-20240229'') ''opus''"
  by code_simp

lemma unknown_model_lower:
  "\<not> str_includes (toLowerCase sample_builtins ''gpt-4o'') ''opus'' \<and>
   \<not> str_includes (toLowerCase sample_builtins ''gpt-4o'') ''sonnet'' \<and>
   \<not> str_includes (toLowerCase sample_builtins ''gpt-4o'') ''haiku''"
  by code_simp

text \<open>
  Claim C9 at the model name of scenario A, written with a capital letter, and at a name
  that contains none of the three substrings.
\<close>

theorem C9_selectTargetModel_witness:
  "fst (selectTargetModel sample_builtins ''claude-3-Opus-20240229'' ''big-x'' ''small-y'') = ''big-x'' \<and>
   (Warning_level, MODEL_SELECTION) \<notin>
     set (snd (selectTargetModel sample_builtins ''claude-3-Opus-20240229'' ''big-x'' ''small-y'')) \<and>
   fst (selectTargetModel sample_builtins ''gpt-4o'' ''big-x'' ''small-y'') = ''small-y'' \<and>
   (Warning_level, MODEL_SELECTION) \<in>
     set (snd (selectTargetModel sample_builtins ''gpt-4o'' ''big-x'' ''small-y''))"
  using C9_selectTargetModel [of sample_builtins "''claude-3-Opus-20240229''" "''big-x''" "''small-y''"]
    C9_selectTargetModel [of sample_builtins "''gpt-4o''" "''big-x''" "''small-y''"]
    scenario_A_lower unknown_model_lower
  by simp

subsection \<open>Error kinds\<close>

lemma status_table: "(case STATUS_CODE_ERROR_MAP n of Some t \<Rightarrow> t | None \<Rightarrow> API_ERROR) = claimed_kind_of_status n"
  by (simp add: STATUS_CODE_ERROR_MAP_def claimed_kind_of_status_def)

text \<open>
  Claim C6: for an exception of the backend client that carries a status, the kind is
  that of the subtype when the exception is one of the six subtypes, and the kind that
  the table gives to the status otherwise (api_error outside the table); the message
  is never empty. The mapper is a total function: no input makes it raise.
\<close>

theorem C6_error_kind:
  assumes "exc_class exc \<noteq> PlainError" and "exc_status exc = Some n"
  shows "errorType (getAnthropicErrorDetailsFromException env exc) =
           (case subtype_kind (exc_class exc) of
              Some k \<Rightarrow> k
            | None \<Rightarrow> claimed_kind_of_status n) \<and>
         errorMessage (getAnthropicErrorDetailsFromException env exc) \<noteq> []"
proof -
  have "(case STATUS_CODE_ERROR_MAP (if n = 0 then 500 else n) of Some t \<Rightarrow> t | None \<Rightarrow> API_ERROR)
          = claimed_kind_of_status n"
    by (simp add: status_table) (simp add: claimed_kind_of_status_def)
  then show ?thesis
    using assms
    by (cases "exc_class exc")
       (simp_all add: getAnthropicErrorDetailsFromException_def Let_def subtype_kind_def
          String_of_exception_def error_name_def)
qed

text \<open>
  Claim C6 at scenario D, a rate-limit exception with status 429.
\<close>

theorem C6_error_kind_witness:
  "exc_class rate_limited \<noteq> PlainError \<and> exc_status rate_limited = Some 429 \<and>
   errorType (getAnthropicErrorDetailsFromException sample_builtins rate_limited) = RATE_LIMIT \<and>
   errorMessage (getAnthropicErrorDetailsFromException sample_builtins rate_limited) \<noteq> []"
  using C6_error_kind [of rate_limited 429 sample_builtins]
  by (simp add: rate_limited_def subtype_kind_def)

subsection \<open>Tool calls and null content\<close>

lemma null_content_inv_append [simp]:
  "null_content_inv (xs @ ys) \<longleftrightarrow> null_content_inv xs \<and> null_content_inv ys"
  by (auto simp: null_content_inv_def)

lemma null_content_inv_simps [simp]:
  "null_content_inv []"
  "null_content_inv [plain_message r c]"
  "null_content_inv [tool_message t c]"
  "null_content_inv [tool_calls_message tcs]"
  by (simp_all add: null_content_inv_def plain_message_def tool_message_def tool_calls_message_def)

lemma processBlock_null:
  "null_content_inv (openaiMessages st) \<Longrightarrow>
   null_content_inv (openaiMessages (processBlock env lg r st b))"
  by (cases b; cases r) (auto split: option.splits prod.splits)

lemma foldl_processBlock_null:
  "null_content_inv (openaiMessages st) \<Longrightarrow>
   null_content_inv (openaiMessages (foldl (processBlock env lg r) st bs))"
  by (induction bs arbitrary: st) (auto simp: processBlock_null)

lemma pushUserParts_null:
  "null_content_inv msgs \<Longrightarrow> null_content_inv (pushUserParts env msgs parts)"
  by (auto simp: pushUserParts_def split: list.splits UserPart.splits)

lemma null_content_inv_butlast: "null_content_inv msgs \<Longrightarrow> null_content_inv (butlast msgs)"
  by (auto simp: null_content_inv_def dest: in_set_butlastD)

lemma attachToolCalls_null:
  "null_content_inv msgs \<Longrightarrow> null_content_inv (attachToolCalls msgs tcs)"
  by (auto simp: attachToolCalls_def Let_def null_content_inv_butlast)
     (simp add: null_content_inv_def)

lemma pushAssistant_null:
  "null_content_inv msgs \<Longrightarrow> null_content_inv (pushAssistant msgs texts tcs)"
  by (auto simp: pushAssistant_def Let_def attachToolCalls_null)

lemma convertMessage_null:
  "null_content_inv (fst acc) \<Longrightarrow> null_content_inv (fst (convertMessage env lg acc m))"
  unfolding convertMessage_def
  by (auto simp: Let_def foldl_processBlock_null pushUserParts_null pushAssistant_null
        split: MessageContent.splits SourceRole.splits)

lemma foldl_convertMessage_null:
  "null_content_inv (fst acc) \<Longrightarrow>
   null_content_inv (fst (foldl (convertMessage env lg) acc msgs))"
  by (induction msgs arbitrary: acc) (auto simp: convertMessage_null)

lemma convert_fst:
  "fst (convertAnthropicToOpenAIMessages env msgs sys lg) =
     map (normalizeMessage lg)
       (fst (foldl (convertMessage env lg)
          (if systemText sys \<noteq> [] then [plain_message System_role (systemText sys)] else [],
           systemWarnings lg sys) msgs))"
  by (simp add: convertAnthropicToOpenAIMessages_def Let_def split: prod.splits)

text \<open>
  Claim C5: every message that the request translator returns with a tool-call list has
  \<open>content: null\<close>, for every list of source messages, system prompt and logger.
\<close>

theorem C5_tool_calls_null_content:
  assumes "m \<in> set (fst (convertAnthropicToOpenAIMessages env msgs sys lg))"
    and "om_tool_calls m \<noteq> None"
  shows "om_content m = None"
proof -
  let ?start = "(if systemText sys \<noteq> [] then [plain_message System_role (systemText sys)] else [],
           systemWarnings lg sys)"
  have "null_content_inv (fst ?start)" by simp
  then have inv: "null_content_inv (fst (foldl (convertMessage env lg) ?start msgs))"
    by (rule foldl_convertMessage_null)
  from assms(1) obtain m0 where m0: "m0 \<in> set (fst (foldl (convertMessage env lg) ?start msgs))"
    and m: "m = normalizeMessage lg m0"
    unfolding convert_fst by auto
  from assms(2) m have "om_tool_calls m0 \<noteq> None"
    by (auto simp: normalizeMessage_def split: if_splits)
  with inv m0 have "om_content m0 = None" by (auto simp: null_content_inv_def)
  with m show ?thesis by (simp add: normalizeMessage_def)
qed

lemma scenario_E_run:
  "fst (convertAnthropicToOpenAIMessages sample_builtins scenario_E None True) =
     [\<lparr>om_role = Assistant_role, om_content = Some ''Checking.'', om_tool_calls = None,
       om_tool_call_id = None\<rparr>,
      \<lparr>om_role = Assistant_role, om_content = None,
       om_tool_calls = Some [\<lparr>call_id = ''t1'', call_type = ''function'',
                             function_name = ''get_weather'', function_arguments = ''{}''\<rparr>],
       om_tool_call_id = None\<rparr>]"
  by code_simp

text \<open>
  Claim C5 at scenario E, an assistant message with a text block and a tool-use block:
  the text goes to a message of its own and the calls to a second one with null content.
\<close>

theorem C5_tool_calls_null_content_witness:
  "\<lparr>om_role = Assistant_role, om_content = None,
     om_tool_calls = Some [\<lparr>call_id = ''t1'', call_type = ''function'',
                           function_name = ''get_weather'', function_arguments = ''{}''\<rparr>],
     om_tool_call_id = None\<rparr>
     \<in> set (fst (convertAnthropicToOpenAIMessages sample_builtins scenario_E None True)) \<and>
   om_tool_calls \<lparr>om_role = Assistant_role, om_content = None,
     om_tool_calls = Some [\<lparr>call_id = ''t1'', call_type = ''function'',
                           function_name = ''get_weather'', function_arguments = ''{}''\<rparr>],
     om_tool_call_id = None\<rparr> \<noteq> None \<and>
   om_content \<lparr>om_role = Assistant_role, om_content = None,
     om_tool_calls = Some [\<lparr>call_id = ''t1'', call_type = ''function'',
                           function_name = ''get_weather'', function_arguments = ''{}''\<rparr>],
     om_tool_call_id = None\<rparr> = None"
  using C5_tool_calls_null_content [of
      "\<lparr>om_role = Assistant_role, om_content = None,
        om_tool_calls = Some [\<lparr>call_id = ''t1'', call_type = ''function'',
                           function_name = ''get_weather'', function_arguments = ''{}''\<rparr>],
        om_tool_call_id = None\<rparr>" sample_builtins scenario_E None True]
  by (simp add: scenario_E_run)

subsection \<open>The system prompt\<close>

lemma processBlock_cons:
  "processBlock env lg r (st\<lparr>openaiMessages := p # openaiMessages st\<rparr>) b =
     (processBlock env lg r st b)\<lparr>openaiMessages := p # openaiMessages (processBlock env lg r st b)\<rparr>"
  by (cases b; cases r) (auto split: option.splits prod.splits)

lemma foldl_processBlock_cons:
  "foldl (processBlock env lg r) (st\<lparr>openaiMessages := p # openaiMessages st\<rparr>) bs =
     (foldl (processBlock env lg r) st bs)
       \<lparr>openaiMessages := p # openaiMessages (foldl (processBlock env lg r) st bs)\<rparr>"
  by (induction bs arbitrary: st) (simp_all add: processBlock_cons)

lemma pushUserParts_cons: "pushUserParts env (p # msgs) parts = p # pushUserParts env msgs parts"
  by (auto simp: pushUserParts_def split: list.splits UserPart.splits)

lemma attachToolCalls_cons:
  "om_role p \<noteq> Assistant_role \<Longrightarrow> attachToolCalls (p # msgs) tcs = p # attachToolCalls msgs tcs"
  by (auto simp: attachToolCalls_def Let_def)

lemma pushAssistant_cons:
  "om_role p \<noteq> Assistant_role \<Longrightarrow>
   pushAssistant (p # msgs) texts tcs = p # pushAssistant msgs texts tcs"
  by (auto simp: pushAssistant_def Let_def attachToolCalls_cons)

lemma convertMessage_cons:
  assumes "om_role p \<noteq> Assistant_role"
  shows "convertMessage env lg (p # msgs, l) m =
           (p # fst (convertMessage env lg (msgs, l) m), snd (convertMessage env lg (msgs, l) m))"
proof -
  have init: "\<lparr>openaiMessages = p # msgs, openaiPartsForUserMessage = [],
            assistantToolCalls = [], textContentForAssistant = [], logged = l\<rparr> =
        \<lparr>openaiMessages = msgs, openaiPartsForUserMessage = [],
            assistantToolCalls = [], textContentForAssistant = [], logged = l\<rparr>
          \<lparr>openaiMessages := p # openaiMessages \<lparr>openaiMessages = msgs,
             openaiPartsForUserMessage = [], assistantToolCalls = [],
             textContentForAssistant = [], logged = l\<rparr>\<rparr>"
    by simp
  show ?thesis
    unfolding convertMessage_def fst_conv snd_conv init foldl_processBlock_cons
    using assms
    by (auto simp: Let_def pushUserParts_cons pushAssistant_cons
          split: MessageContent.splits SourceRole.splits)
qed

lemma foldl_convertMessage_cons:
  assumes "om_role p \<noteq> Assistant_role"
  shows "foldl (convertMessage env lg) (p # msgs, l) ms =
           (p # fst (foldl (convertMessage env lg) (msgs, l) ms),
            snd (foldl (convertMessage env lg) (msgs, l) ms))"
proof (induction ms arbitrary: msgs l)
  case Nil
  then show ?case by simp
next
  case (Cons m ms)
  show ?case
    by (simp add: convertMessage_cons[OF assms] Cons.IH)
qed

lemma no_system_append [simp]: "no_system (xs @ ys) \<longleftrightarrow> no_system xs \<and> no_system ys"
  by (simp add: no_system_def)

lemma no_system_simps [simp]:
  "no_system []"
  "no_system [plain_message r c] \<longleftrightarrow> r \<noteq> System_role"
  "no_system [tool_message t c]"
  "no_system [tool_calls_message tcs]"
  by (simp_all add: no_system_def plain_message_def tool_message_def tool_calls_message_def)

lemma processBlock_no_system:
  "no_system (openaiMessages st) \<Longrightarrow> no_system (openaiMessages (processBlock env lg r st b))"
  by (cases b; cases r) (auto split: option.splits prod.splits)

lemma foldl_processBlock_no_system:
  "no_system (openaiMessages st) \<Longrightarrow>
   no_system (openaiMessages (foldl (processBlock env lg r) st bs))"
  by (induction bs arbitrary: st) (auto simp: processBlock_no_system)

lemma pushUserParts_no_system: "no_system msgs \<Longrightarrow> no_system (pushUserParts env msgs parts)"
  by (auto simp: pushUserParts_def split: list.splits UserPart.splits)

lemma attachToolCalls_no_system: "no_system msgs \<Longrightarrow> no_system (attachToolCalls msgs tcs)"
  by (auto simp: attachToolCalls_def Let_def no_system_def list_all_iff dest: in_set_butlastD)
     (simp add: tool_calls_message_def)+

lemma pushAssistant_no_system: "no_system msgs \<Longrightarrow> no_system (pushAssistant msgs texts tcs)"
  by (auto simp: pushAssistant_def Let_def attachToolCalls_no_system)

lemma convertMessage_no_system:
  "no_system (fst acc) \<Longrightarrow> no_system (fst (convertMessage env lg acc m))"
  unfolding convertMessage_def
  by (cases "msg_role m")
     (auto simp: Let_def foldl_processBlock_no_system pushUserParts_no_system
        pushAssistant_no_system split: MessageContent.splits)

lemma foldl_convertMessage_no_system:
  "no_system (fst acc) \<Longrightarrow> no_system (fst (foldl (convertMessage env lg) acc msgs))"
  by (induction msgs arbitrary: acc) (auto simp: convertMessage_no_system)

lemma adjusted_append [simp]: "adjusted (xs @ ys) \<longleftrightarrow> adjusted xs \<or> adjusted ys"
  by (auto simp: adjusted_def)

lemma serialize_adjusted: "\<not> adjusted (snd (serializeToolResultContentForOpenAI env lg c))"
  by (cases c) (auto simp: serializeToolResultContentForOpenAI_def adjusted_def Let_def)

lemma processBlock_adjusted:
  "adjusted (logged (processBlock env lg r st b)) \<longleftrightarrow> adjusted (logged st)"
proof (cases b)
  case (ContentBlockToolResult t c)
  then show ?thesis
    using serialize_adjusted[of env lg c]
    by (cases r) (auto split: prod.splits)
qed (cases r; auto simp: adjusted_def split: option.splits)+

lemma foldl_processBlock_adjusted:
  "adjusted (logged (foldl (processBlock env lg r) st bs)) \<longleftrightarrow> adjusted (logged st)"
  by (induction bs arbitrary: st) (simp_all add: processBlock_adjusted)

lemma convertMessage_adjusted:
  "adjusted (snd (convertMessage env lg acc m)) \<longleftrightarrow> adjusted (snd acc)"
  unfolding convertMessage_def
  by (cases "msg_role m")
     (auto simp: Let_def foldl_processBlock_adjusted split: MessageContent.splits)

lemma foldl_convertMessage_adjusted:
  "adjusted (snd (foldl (convertMessage env lg) acc msgs)) \<longleftrightarrow> adjusted (snd acc)"
  by (induction msgs arbitrary: acc) (simp_all add: convertMessage_adjusted)

lemma normalize_logs_adjusted:
  "\<not> adjusted (concat (map (\<lambda>m. if normalizes lg m
       then [(Warning_level, MESSAGE_FORMAT_NORMALIZED)] else []) msgs))"
  by (induction msgs) (auto simp: adjusted_def)

lemma length_filter_less_iff:
  "length (filter P xs) < length xs \<longleftrightarrow> (\<exists>x \<in> set xs. \<not> P x)"
  by (induction xs) (auto simp: less_Suc_eq_le)

lemma systemWarnings_adjusted:
  "adjusted (systemWarnings lg sys) \<longleftrightarrow>
     lg \<and> (\<exists>bs. sys = Some (SystemBlocks bs) \<and> list_ex (\<lambda>b. sys_type b \<noteq> ''text'') bs)"
  by (auto simp: systemWarnings_def adjusted_def length_filter_less_iff list_ex_iff
        split: option.splits SystemPrompt.splits)

lemma convert_snd:
  "snd (convertAnthropicToOpenAIMessages env msgs sys lg) =
     snd (foldl (convertMessage env lg)
          (if systemText sys \<noteq> [] then [plain_message System_role (systemText sys)] else [],
           systemWarnings lg sys) msgs) @
     concat (map (\<lambda>m. if normalizes lg m then [(Warning_level, MESSAGE_FORMAT_NORMALIZED)] else [])
       (fst (foldl (convertMessage env lg)
          (if systemText sys \<noteq> [] then [plain_message System_role (systemText sys)] else [],
           systemWarnings lg sys) msgs)))"
  by (simp add: convertAnthropicToOpenAIMessages_def Let_def split: prod.splits)

lemma normalize_system [simp]:
  "normalizeMessage lg (plain_message System_role c) = plain_message System_role c"
  by (simp add: normalizeMessage_def normalizes_def plain_message_def)

lemma processBlock_same:
  "same_but_logs st st' \<Longrightarrow>
   same_but_logs (processBlock env lg r st b) (processBlock env lg r st' b)"
  by (cases b; cases r) (auto simp: same_but_logs_def split: option.splits prod.splits)

lemma foldl_processBlock_same:
  "same_but_logs st st' \<Longrightarrow>
   same_but_logs (foldl (processBlock env lg r) st bs) (foldl (processBlock env lg r) st' bs)"
  by (induction bs arbitrary: st st') (auto simp: processBlock_same)

lemma convertMessage_fst_logs:
  "fst (convertMessage env lg (msgs, l) m) = fst (convertMessage env lg (msgs, l') m)"
proof -
  have "same_but_logs
     (foldl (processBlock env lg (msg_role m))
        \<lparr>openaiMessages = msgs, openaiPartsForUserMessage = [], assistantToolCalls = [],
         textContentForAssistant = [], logged = l\<rparr> bs)
     (foldl (processBlock env lg (msg_role m))
        \<lparr>openaiMessages = msgs, openaiPartsForUserMessage = [], assistantToolCalls = [],
         textContentForAssistant = [], logged = l'\<rparr> bs)" for bs
    by (rule foldl_processBlock_same) (simp add: same_but_logs_def)
  then show ?thesis
    unfolding convertMessage_def same_but_logs_def
    by (cases "msg_role m") (auto simp: Let_def split: MessageContent.splits)
qed

lemma foldl_convertMessage_fst_logs:
  "fst (foldl (convertMessage env lg) (msgs, l) ms) =
   fst (foldl (convertMessage env lg) (msgs, l') ms)"
proof (induction ms arbitrary: msgs l l')
  case Nil
  then show ?case by simp
next
  case (Cons m ms)
  obtain a b where ab: "convertMessage env lg (msgs, l) m = (a, b)"
    by (cases "convertMessage env lg (msgs, l) m")
  obtain a' b' where ab': "convertMessage env lg (msgs, l') m = (a', b')"
    by (cases "convertMessage env lg (msgs, l') m")
  from convertMessage_fst_logs[of env lg msgs l m l'] ab ab' have "a = a'" by simp
  then show ?case using Cons.IH[of a b b'] by (simp add: ab ab')
qed

lemma system_prompt_general:
  "(systemText sys \<noteq> [] \<longrightarrow>
      fst (convertAnthropicToOpenAIMessages env msgs sys lg) =
        plain_message System_role (systemText sys) #
        fst (convertAnthropicToOpenAIMessages env msgs None lg)) \<and>
   (systemText sys = [] \<longrightarrow>
      fst (convertAnthropicToOpenAIMessages env msgs sys lg) =
        fst (convertAnthropicToOpenAIMessages env msgs None lg)) \<and>
   list_all (\<lambda>m. om_role m \<noteq> System_role)
     (fst (convertAnthropicToOpenAIMessages env msgs None lg)) \<and>
   systemText (Some (SystemString s)) = s \<and>
   systemText (Some (SystemBlocks bs)) =
     join newline (map sys_text (filter (\<lambda>b. sys_type b = ''text'') bs)) \<and>
   ((Warning_level, SYSTEM_PROMPT_ADJUSTED)
      \<in> set (snd (convertAnthropicToOpenAIMessages env msgs sys lg)) \<longleftrightarrow>
    lg \<and> (\<exists>blocks. sys = Some (SystemBlocks blocks) \<and>
            list_ex (\<lambda>b. sys_type b \<noteq> ''text'') blocks))"
proof (intro conjI impI)
  let ?p = "plain_message System_role (systemText sys)"
  have role: "om_role ?p \<noteq> Assistant_role" by (simp add: plain_message_def)
  have none: "systemText None = []" "systemWarnings lg None = []"
    by (simp_all add: systemText_def systemWarnings_def)
  {
    assume ne: "systemText sys \<noteq> []"
    have "fst (foldl (convertMessage env lg) ([?p], systemWarnings lg sys) msgs) =
            ?p # fst (foldl (convertMessage env lg) ([], systemWarnings lg sys) msgs)"
      by (simp add: foldl_convertMessage_cons[OF role])
    also have "\<dots> = ?p # fst (foldl (convertMessage env lg) ([], []) msgs)"
      using foldl_convertMessage_fst_logs[of env lg "[]" "systemWarnings lg sys" msgs "[]"] by simp
    finally show "fst (convertAnthropicToOpenAIMessages env msgs sys lg) =
        ?p # fst (convertAnthropicToOpenAIMessages env msgs None lg)"
      using ne by (simp add: convert_fst none)
  }
  {
    assume e: "systemText sys = []"
    show "fst (convertAnthropicToOpenAIMessages env msgs sys lg) =
        fst (convertAnthropicToOpenAIMessages env msgs None lg)"
      using foldl_convertMessage_fst_logs[of env lg "[]" "systemWarnings lg sys" msgs "[]"] e
      by (simp add: convert_fst none)
  }
  have "no_system (fst (foldl (convertMessage env lg) ([], []) msgs))"
    by (rule foldl_convertMessage_no_system) simp
  then show "list_all (\<lambda>m. om_role m \<noteq> System_role)
     (fst (convertAnthropicToOpenAIMessages env msgs None lg))"
    by (auto simp: convert_fst none no_system_def list_all_iff normalizeMessage_def)
  show "systemText (Some (SystemString s)) = s" by (simp add: systemText_def)
  show "systemText (Some (SystemBlocks bs)) =
     join newline (map sys_text (filter (\<lambda>b. sys_type b = ''text'') bs))"
    by (simp add: systemText_def)
  show "(Warning_level, SYSTEM_PROMPT_ADJUSTED)
      \<in> set (snd (convertAnthropicToOpenAIMessages env msgs sys lg)) \<longleftrightarrow>
    lg \<and> (\<exists>blocks. sys = Some (SystemBlocks blocks) \<and>
            list_ex (\<lambda>b. sys_type b \<noteq> ''text'') blocks)"
    using foldl_convertMessage_adjusted[of env lg _ msgs] normalize_logs_adjusted[of lg]
      systemWarnings_adjusted[of lg sys]
    unfolding convert_snd adjusted_def by auto
qed

text \<open>
  Claim C7, as the translator does it: a non-empty string becomes the leading system
  message, followed by what the messages alone translate to, which holds no system
  message; an array becomes the leading system message with the texts of its text blocks
  joined by newlines when that text is not empty; when the text is empty (the empty
  string, or an array whose text blocks join to nothing) no system message is produced.
  The warning is logged exactly when a logger was passed and the array held a block whose
  type is not text.
\<close>

theorem C7_system_prompt:
  "(s \<noteq> [] \<longrightarrow>
      fst (convertAnthropicToOpenAIMessages env msgs (Some (SystemString s)) lg) =
        plain_message System_role s # fst (convertAnthropicToOpenAIMessages env msgs None lg)) \<and>
   (join newline (map sys_text (filter (\<lambda>b. sys_type b = ''text'') bs)) \<noteq> [] \<longrightarrow>
      fst (convertAnthropicToOpenAIMessages env msgs (Some (SystemBlocks bs)) lg) =
        plain_message System_role
          (join newline (map sys_text (filter (\<lambda>b. sys_type b = ''text'') bs))) #
        fst (convertAnthropicToOpenAIMessages env msgs None lg)) \<and>
   fst (convertAnthropicToOpenAIMessages env msgs (Some (SystemString [])) lg) =
     fst (convertAnthropicToOpenAIMessages env msgs None lg) \<and>
   (join newline (map sys_text (filter (\<lambda>b. sys_type b = ''text'') bs)) = [] \<longrightarrow>
      fst (convertAnthropicToOpenAIMessages env msgs (Some (SystemBlocks bs)) lg) =
        fst (convertAnthropicToOpenAIMessages env msgs None lg)) \<and>
   list_all (\<lambda>m. om_role m \<noteq> System_role)
     (fst (convertAnthropicToOpenAIMessages env msgs None lg)) \<and>
   ((Warning_level, SYSTEM_PROMPT_ADJUSTED)
      \<in> set (snd (convertAnthropicToOpenAIMessages env msgs sys lg)) \<longleftrightarrow>
    lg \<and> (\<exists>blocks. sys = Some (SystemBlocks blocks) \<and>
            list_ex (\<lambda>b. sys_type b \<noteq> ''text'') blocks))"
  using system_prompt_general [of "Some (SystemString s)" env msgs lg s bs]
    system_prompt_general [of "Some (SystemBlocks bs)" env msgs lg s bs]
    system_prompt_general [of "Some (SystemString [])" env msgs lg "[]" bs]
    system_prompt_general [of sys env msgs lg s bs]
  by simp

text \<open>
  Claim C7 as stated fails for the empty string: line 76 pushes the system message only
  for a truthy text, so the output has no system message at all.
\<close>

theorem C7_counterexample:
  "fst (convertAnthropicToOpenAIMessages sample_builtins greeting (Some (SystemString [])) True) =
     [plain_message User_role ''hi''] \<and>
   \<not> list_ex (\<lambda>m. om_role m = System_role)
     (fst (convertAnthropicToOpenAIMessages sample_builtins greeting (Some (SystemString [])) True))"
  by code_simp

lemma greeting_run:
  "fst (convertAnthropicToOpenAIMessages sample_builtins greeting None True) =
     [plain_message User_role ''hi'']"
  by code_simp

text \<open>
  Claim C7 at a string prompt and at an array with two text blocks around a block of
  another type.
\<close>

theorem C7_system_prompt_witness:
  "''Be brief.'' \<noteq> [] \<and>
   fst (convertAnthropicToOpenAIMessages sample_builtins greeting
          (Some (SystemString ''Be brief.'')) True) =
     [plain_message System_role ''Be brief.'', plain_message User_role ''hi''] \<and>
   join newline (map sys_text (filter (\<lambda>b. sys_type b = ''text'')
     [\<lparr>sys_type = ''text'', sys_text = ''A''\<rparr>, \<lparr>sys_type = ''image'', sys_text = ''x''\<rparr>,
      \<lparr>sys_type = ''text'', sys_text = ''B''\<rparr>])) = ''A'' @ newline @ ''B'' \<and>
   fst (convertAnthropicToOpenAIMessages sample_builtins greeting
          (Some (SystemBlocks [\<lparr>sys_type = ''text'', sys_text = ''A''\<rparr>,
             \<lparr>sys_type = ''image'', sys_text = ''x''\<rparr>, \<lparr>sys_type = ''text'', sys_text = ''B''\<rparr>])) True) =
     [plain_message System_role (''A'' @ newline @ ''B''), plain_message User_role ''hi''] \<and>
   (Warning_level, SYSTEM_PROMPT_ADJUSTED) \<in> set (snd
     (convertAnthropicToOpenAIMessages sample_builtins greeting
        (Some (SystemBlocks [\<lparr>sys_type = ''text'', sys_text = ''A''\<rparr>,
           \<lparr>sys_type = ''image'', sys_text = ''x''\<rparr>, \<lparr>sys_type = ''text'', sys_text = ''B''\<rparr>])) True))"
  using C7_system_prompt [of "''Be brief.''" sample_builtins greeting True
      "[\<lparr>sys_type = ''text'', sys_text = ''A''\<rparr>, \<lparr>sys_type = ''image'', sys_text = ''x''\<rparr>,
        \<lparr>sys_type = ''text'', sys_text = ''B''\<rparr>]"
      "Some (SystemBlocks [\<lparr>sys_type = ''text'', sys_text = ''A''\<rparr>,
        \<lparr>sys_type = ''image'', sys_text = ''x''\<rparr>, \<lparr>sys_type = ''text'', sys_text = ''B''\<rparr>])"]
  by (simp add: greeting_run newline_def)

subsection \<open>User messages of tool results\<close>

lemma foldl_tool_results:
  "foldl (processBlock env lg User) st (map (\<lambda>(t, c). ContentBlockToolResult t c) results) =
     st\<lparr>openaiMessages := openaiMessages st @
            map (\<lambda>(t, c). tool_message t (fst (serializeToolResultContentForOpenAI env lg c))) results,
        logged := logged st @
            concat (map (\<lambda>(t, c). snd (serializeToolResultContentForOpenAI env lg c)) results)\<rparr>"
  by (induction results arbitrary: st) (auto split: prod.splits)

lemma normalize_non_assistant:
  "om_role m \<noteq> Assistant_role \<Longrightarrow> normalizeMessage lg m = m"
  by (simp add: normalizeMessage_def normalizes_def)

lemma processBlock_extends:
  "\<exists>ys. openaiMessages (processBlock env lg r st b) = openaiMessages st @ ys"
  by (cases b; cases r) (auto split: option.splits prod.splits)

lemma foldl_processBlock_extends:
  "\<exists>ys. openaiMessages (foldl (processBlock env lg r) st bs) = openaiMessages st @ ys"
proof (induction bs arbitrary: st)
  case Nil
  then show ?case by simp
next
  case (Cons b bs)
  obtain y1 where y1: "openaiMessages (processBlock env lg r st b) = openaiMessages st @ y1"
    using processBlock_extends[where st=st] by blast
  obtain y2 where "openaiMessages (foldl (processBlock env lg r) (processBlock env lg r st b) bs) =
      openaiMessages (processBlock env lg r st b) @ y2"
    using Cons.IH[where st="processBlock env lg r st b"] by blast
  with y1 show ?case by simp
qed

lemma pushUserParts_extends: "\<exists>ys. pushUserParts env msgs parts = msgs @ ys"
  by (auto simp: pushUserParts_def split: list.splits UserPart.splits)

lemma attachToolCalls_frozen:
  assumes "om_role u \<noteq> Assistant_role"
  shows "\<exists>zs. attachToolCalls (xs @ u # ys) tcs = xs @ u # zs"
proof (cases ys rule: rev_cases)
  case Nil
  with assms show ?thesis by (simp add: attachToolCalls_def)
next
  case (snoc ys' y)
  then have "butlast (xs @ u # ys) = xs @ u # ys'" "last (xs @ u # ys) = y"
    by (simp_all add: butlast_append)
  then show ?thesis
    by (auto simp: attachToolCalls_def Let_def)
qed

lemma pushAssistant_frozen:
  assumes "om_role u \<noteq> Assistant_role"
  shows "\<exists>zs. pushAssistant (xs @ u # ys) texts tcs = xs @ u # zs"
proof -
  obtain z1 where z1: "attachToolCalls (xs @ u # ys) tcs = xs @ u # z1"
    using attachToolCalls_frozen[OF assms] by blast
  obtain z2 where z2: "attachToolCalls (xs @ u # (ys @ [plain_message Assistant_role
        (join newline (filter (\<lambda>t. t \<noteq> []) texts))])) tcs = xs @ u # z2"
    using attachToolCalls_frozen[OF assms] by blast
  show ?thesis
    using z1 z2 by (auto simp: pushAssistant_def Let_def)
qed

lemma convertMessage_frozen:
  assumes "om_role u \<noteq> Assistant_role"
  shows "\<exists>zs. fst (convertMessage env lg (xs @ u # ys, l) m) = xs @ u # zs"
proof (cases "msg_content m")
  case (StringContent s)
  then show ?thesis by (simp add: convertMessage_def)
next
  case (BlockContent bs)
  let ?init = "\<lparr>openaiMessages = xs @ u # ys, openaiPartsForUserMessage = [],
               assistantToolCalls = [], textContentForAssistant = [], logged = l\<rparr>"
  obtain y1 where y1: "openaiMessages (foldl (processBlock env lg (msg_role m)) ?init bs) =
      xs @ u # (ys @ y1)"
    using foldl_processBlock_extends[where st="?init" and bs=bs and r="msg_role m" and env=env
        and lg=lg] by auto
  show ?thesis
  proof (cases "bs = []")
    case True
    with BlockContent show ?thesis by (simp add: convertMessage_def)
  next
    case False
    show ?thesis
    proof (cases "msg_role m")
      case User
      with BlockContent False y1 pushUserParts_extends[of env "xs @ u # (ys @ y1)"]
      show ?thesis
        by (auto simp: convertMessage_def Let_def)
    next
      case Assistant
      with BlockContent False y1 pushAssistant_frozen[OF assms, of xs "ys @ y1"]
      show ?thesis
        by (auto simp: convertMessage_def Let_def)
    qed
  qed
qed

lemma foldl_convertMessage_frozen:
  assumes "om_role u \<noteq> Assistant_role"
  shows "\<exists>zs. fst (foldl (convertMessage env lg) (xs @ u # ys, l) ms) = xs @ u # zs"
proof (induction ms arbitrary: ys l)
  case Nil
  then show ?case by simp
next
  case (Cons m ms)
  obtain zs l' where "convertMessage env lg (xs @ u # ys, l) m = (xs @ u # zs, l')"
    using convertMessage_frozen[OF assms, of env lg xs ys l m]
    by (cases "convertMessage env lg (xs @ u # ys, l) m") auto
  with Cons.IH[of zs l'] show ?case by simp
qed

lemma claimed_item_text_eq: "fst (serializeItem env item) = claimed_item_text env item"
  by (cases item)
     (auto simp: serializeItem_def text_item_def claimed_item_text_def claimed_json_text_def
        js_typeof_def split: option.splits)

lemma claimed_serialized_content_eq:
  "fst (serializeToolResultContentForOpenAI env lg c) = claimed_serialized_content env c"
  by (cases c)
     (simp_all add: serializeToolResultContentForOpenAI_def claimed_serialized_content_def
        Let_def claimed_item_text_eq comp_def)

text \<open>
  Claim C10: a user message whose blocks are all tool results adds, to what the earlier
  messages translate to, one message per block in block order, with the role tool, the
  block's tool-use id as \<open>tool_call_id\<close> and as content the block's content serialized
  (a string as it is; of an array, the text of each text-typed item and the JSON
  serialization of each other item, joined by newlines), and then one user message
  whose content is the empty string; the messages that follow it in the request leave
  these target messages as they are.
\<close>

theorem C10_tool_results_only:
  "fst (convertAnthropicToOpenAIMessages env
          (msgs @ [\<lparr>msg_role = User,
                    msg_content = BlockContent
                      (map (\<lambda>(tool_use_id, c). ContentBlockToolResult tool_use_id c) results)\<rparr>])
          sys lg) =
     fst (convertAnthropicToOpenAIMessages env msgs sys lg) @
     map (\<lambda>(tool_use_id, c).
            \<lparr>om_role = Tool_role, om_content = Some (claimed_serialized_content env c),
             om_tool_calls = None, om_tool_call_id = Some tool_use_id\<rparr>) results @
     [\<lparr>om_role = User_role, om_content = Some [], om_tool_calls = None,
       om_tool_call_id = None\<rparr>] \<and>
   (\<exists>rest.
      fst (convertAnthropicToOpenAIMessages env
          (msgs @ \<lparr>msg_role = User,
                   msg_content = BlockContent
                     (map (\<lambda>(tool_use_id, c). ContentBlockToolResult tool_use_id c) results)\<rparr>
             # later)
          sys lg) =
     fst (convertAnthropicToOpenAIMessages env msgs sys lg) @
     map (\<lambda>(tool_use_id, c).
            \<lparr>om_role = Tool_role, om_content = Some (claimed_serialized_content env c),
             om_tool_calls = None, om_tool_call_id = Some tool_use_id\<rparr>) results @
     \<lparr>om_role = User_role, om_content = Some [], om_tool_calls = None,
      om_tool_call_id = None\<rparr> # rest)"
proof -
  let ?m = "\<lparr>msg_role = User,
             msg_content = BlockContent (map (\<lambda>(t, c). ContentBlockToolResult t c) results)\<rparr>"
  let ?tools = "map (\<lambda>(t, c). tool_message t (fst (serializeToolResultContentForOpenAI env lg c)))
                  results"
  let ?u = "plain_message User_role []"
  let ?start = "(if systemText sys \<noteq> [] then [plain_message System_role (systemText sys)] else [],
           systemWarnings lg sys)"
  have step: "fst (convertMessage env lg acc ?m) = fst acc @ ?tools @ [?u]" for acc
    by (cases "results = []")
       (simp_all add: convertMessage_def foldl_tool_results pushUserParts_def)
  have tm: "map (normalizeMessage lg) ?tools = ?tools"
    by (induction results) (auto simp: normalize_non_assistant tool_message_def)
  have um: "normalizeMessage lg ?u = ?u"
    by (simp add: normalize_non_assistant plain_message_def)
  have role: "om_role ?u \<noteq> Assistant_role" by (simp add: plain_message_def)
  have first: "fst (convertAnthropicToOpenAIMessages env (msgs @ [?m]) sys lg) =
     fst (convertAnthropicToOpenAIMessages env msgs sys lg) @ ?tools @ [?u]"
    using tm by (simp add: convert_fst step um)
  obtain A l where A: "foldl (convertMessage env lg) ?start msgs = (A, l)"
    by (cases "foldl (convertMessage env lg) ?start msgs")
  obtain l1 where l1: "convertMessage env lg (A, l) ?m = (A @ ?tools @ [?u], l1)"
    using step[of "(A, l)"] by (cases "convertMessage env lg (A, l) ?m") auto
  obtain zs where zs: "fst (foldl (convertMessage env lg) (A @ ?tools @ [?u], l1) later) =
      A @ ?tools @ ?u # zs"
    using foldl_convertMessage_frozen[OF role, where xs="A @ ?tools" and ys="[]" and env=env
        and lg=lg and l=l1 and ms=later]
    by auto
  have second: "fst (convertAnthropicToOpenAIMessages env (msgs @ ?m # later) sys lg) =
     fst (convertAnthropicToOpenAIMessages env msgs sys lg) @ ?tools @
     ?u # map (normalizeMessage lg) zs"
    using tm by (simp add: convert_fst A l1 zs um)
  have tools: "?tools = map (\<lambda>(tool_use_id, c).
            \<lparr>om_role = Tool_role, om_content = Some (claimed_serialized_content env c),
             om_tool_calls = None, om_tool_call_id = Some tool_use_id\<rparr>) results"
    by (simp add: tool_message_def claimed_serialized_content_eq)
  have u: "?u = \<lparr>om_role = User_role, om_content = Some [], om_tool_calls = None,
       om_tool_call_id = None\<rparr>"
    by (simp add: plain_message_def)
  from first second show ?thesis
    unfolding tools u by blast
qed

text \<open>
  Claim C10 at a request of a greeting followed by a user message with two tool results,
  a string and an array of a text item and the empty object.
\<close>

theorem C10_tool_results_only_witness:
  "fst (convertAnthropicToOpenAIMessages sample_builtins
          (greeting @
           [\<lparr>msg_role = User,
             msg_content = BlockContent
               [ContentBlockToolResult ''toolu_1'' (ResultString ''42''),
                ContentBlockToolResult ''toolu_2''
                  (ResultArray [JObj [(''type'', JStr ''text''), (''text'', JStr ''sunny'')],
                                JObj []])]\<rparr>])
          None True) =
     [\<lparr>om_role = User_role, om_content = Some ''hi'', om_tool_calls = None,
       om_tool_call_id = None\<rparr>,
      \<lparr>om_role = Tool_role, om_content = Some ''42'', om_tool_calls = None,
       om_tool_call_id = Some ''toolu_1''\<rparr>,
      \<lparr>om_role = Tool_role, om_content = Some (''sunny'' @ [CHR 0x0A] @ ''{}''),
       om_tool_calls = None, om_tool_call_id = Some ''toolu_2''\<rparr>,
      \<lparr>om_role = User_role, om_content = Some [], om_tool_calls = None,
       om_tool_call_id = None\<rparr>]"
proof -
  have g: "fst (convertAnthropicToOpenAIMessages sample_builtins greeting None True) =
      [\<lparr>om_role = User_role, om_content = Some ''hi'', om_tool_calls = None,
        om_tool_call_id = None\<rparr>]"
    by (simp add: convertAnthropicToOpenAIMessages_def convertMessage_def greeting_def
          systemText_def systemWarnings_def plain_message_def normalizeMessage_def
          normalizes_def)
  have c1: "claimed_serialized_content sample_builtins (ResultString ''42'') = ''42''"
    by (simp add: claimed_serialized_content_def)
  have c2: "claimed_serialized_content sample_builtins
        (ResultArray [JObj [(''type'', JStr ''text''), (''text'', JStr ''sunny'')], JObj []]) =
      ''sunny'' @ [CHR 0x0A] @ ''{}''"
    by (simp add: claimed_serialized_content_def claimed_item_text_def claimed_json_text_def
          sample_builtins_def newline_def)
  show ?thesis
    using C10_tool_results_only [of sample_builtins greeting sample_tool_results None True]
    by (simp add: sample_tool_results_def g c1 c2)
qed

subsection \<open>Tool names and ids through both translators\<close>

lemma calls_of_append [simp]: "calls_of (xs @ ys) = calls_of xs @ calls_of ys"
  by (simp add: calls_of_def)

lemma calls_of_simps [simp]:
  "calls_of [] = []"
  "calls_of [plain_message r c] = []"
  "calls_of [tool_message t c] = []"
  "calls_of [tool_calls_message tcs] = tcs"
  by (simp_all add: calls_of_def plain_message_def tool_message_def tool_calls_message_def)

lemma processBlock_calls:
  "calls_of (openaiMessages (processBlock env lg r st b)) = calls_of (openaiMessages st)"
  by (cases b; cases r) (auto split: option.splits prod.splits)

lemma processBlock_tool_calls:
  "\<exists>new. assistantToolCalls (processBlock env lg r st b) = assistantToolCalls st @ new \<and>
         list_all (\<lambda>tc. call_type tc = ''function'') new \<and>
         map call_key new = (case r of User \<Rightarrow> [] | Assistant \<Rightarrow> tool_use_of b)"
  by (cases b; cases r) (auto simp: call_key_def split: option.splits prod.splits)

lemma foldl_processBlock_calls:
  "calls_of (openaiMessages (foldl (processBlock env lg r) st bs)) = calls_of (openaiMessages st)"
  by (induction bs arbitrary: st) (simp_all add: processBlock_calls)

lemma foldl_processBlock_tool_calls:
  "\<exists>new. assistantToolCalls (foldl (processBlock env lg r) st bs) = assistantToolCalls st @ new \<and>
         list_all (\<lambda>tc. call_type tc = ''function'') new \<and>
         map call_key new = (case r of User \<Rightarrow> [] | Assistant \<Rightarrow> concat (map tool_use_of bs))"
proof (induction bs arbitrary: st)
  case Nil
  then show ?case by (cases r) auto
next
  case (Cons b bs)
  obtain n1 where n1: "assistantToolCalls (processBlock env lg r st b) = assistantToolCalls st @ n1"
    "list_all (\<lambda>tc. call_type tc = ''function'') n1"
    "map call_key n1 = (case r of User \<Rightarrow> [] | Assistant \<Rightarrow> tool_use_of b)"
    using processBlock_tool_calls[where env=env and lg=lg and r=r and st=st and b=b] by blast
  obtain n2 where n2: "assistantToolCalls (foldl (processBlock env lg r) (processBlock env lg r st b) bs)
       = assistantToolCalls (processBlock env lg r st b) @ n2"
    "list_all (\<lambda>tc. call_type tc = ''function'') n2"
    "map call_key n2 = (case r of User \<Rightarrow> [] | Assistant \<Rightarrow> concat (map tool_use_of bs))"
    using Cons.IH[where st="processBlock env lg r st b"] by blast
  show ?case
    by (rule exI[of _ "n1 @ n2"]) (use n1 n2 in \<open>cases r; simp\<close>)
qed

lemma pushUserParts_calls: "calls_of (pushUserParts env msgs parts) = calls_of msgs"
  by (auto simp: pushUserParts_def split: list.splits UserPart.splits)

lemma calls_of_butlast_last:
  "msgs \<noteq> [] \<Longrightarrow> om_tool_calls (last msgs) = None \<Longrightarrow> calls_of (butlast msgs) = calls_of msgs"
proof -
  assume a: "msgs \<noteq> []" "om_tool_calls (last msgs) = None"
  then have "calls_of msgs = calls_of (butlast msgs @ [last msgs])" by simp
  also have "\<dots> = calls_of (butlast msgs)" using a(2) by (simp add: calls_of_def)
  finally show ?thesis by simp
qed

lemma attachToolCalls_calls: "calls_of (attachToolCalls msgs tcs) = calls_of msgs @ tcs"
  by (auto simp: attachToolCalls_def Let_def calls_of_butlast_last)
     (simp add: calls_of_def)

lemma pushAssistant_calls: "calls_of (pushAssistant msgs texts tcs) = calls_of msgs @ tcs"
  by (auto simp: pushAssistant_def Let_def attachToolCalls_calls)

lemma convertMessage_calls:
  "\<exists>new. calls_of (fst (convertMessage env lg acc m)) = calls_of (fst acc) @ new \<and>
         list_all (\<lambda>tc. call_type tc = ''function'') new \<and>
         map call_key new = message_tool_uses m"
proof (cases "msg_content m")
  case (StringContent s)
  then show ?thesis
    by (cases "msg_role m") (auto simp: convertMessage_def message_tool_uses_def)
next
  case (BlockContent bs)
  let ?init = "\<lparr>openaiMessages = fst acc, openaiPartsForUserMessage = [],
               assistantToolCalls = [], textContentForAssistant = [], logged = snd acc\<rparr>"
  let ?st = "foldl (processBlock env lg (msg_role m)) ?init bs"
  obtain new where new: "assistantToolCalls ?st = new"
    "list_all (\<lambda>tc. call_type tc = ''function'') new"
    "map call_key new = (case msg_role m of User \<Rightarrow> [] | Assistant \<Rightarrow> concat (map tool_use_of bs))"
    using foldl_processBlock_tool_calls[where env=env and lg=lg and r="msg_role m" and st="?init"
        and bs=bs] by auto
  have c: "calls_of (openaiMessages ?st) = calls_of (fst acc)"
    by (simp add: foldl_processBlock_calls)
  show ?thesis
  proof (cases "bs = []")
    case True
    with BlockContent show ?thesis
      by (cases "msg_role m") (auto simp: convertMessage_def message_tool_uses_def)
  next
    case False
    show ?thesis
    proof (cases "msg_role m")
      case User
      with BlockContent False c show ?thesis
        by (auto simp: convertMessage_def message_tool_uses_def Let_def pushUserParts_calls)
    next
      case Assistant
      with BlockContent False c new show ?thesis
        by (auto simp: convertMessage_def message_tool_uses_def Let_def pushAssistant_calls)
    qed
  qed
qed

lemma foldl_convertMessage_calls:
  "\<exists>new. calls_of (fst (foldl (convertMessage env lg) acc msgs)) = calls_of (fst acc) @ new \<and>
         list_all (\<lambda>tc. call_type tc = ''function'') new \<and>
         map call_key new = source_tool_uses msgs"
proof (induction msgs arbitrary: acc)
  case Nil
  then show ?case by (simp add: source_tool_uses_def)
next
  case (Cons m msgs)
  obtain n1 where n1: "calls_of (fst (convertMessage env lg acc m)) = calls_of (fst acc) @ n1"
    "list_all (\<lambda>tc. call_type tc = ''function'') n1" "map call_key n1 = message_tool_uses m"
    using convertMessage_calls[where env=env and lg=lg and acc=acc and m=m] by blast
  obtain n2 where n2:
    "calls_of (fst (foldl (convertMessage env lg) (convertMessage env lg acc m) msgs)) =
       calls_of (fst (convertMessage env lg acc m)) @ n2"
    "list_all (\<lambda>tc. call_type tc = ''function'') n2" "map call_key n2 = source_tool_uses msgs"
    using Cons.IH[where acc="convertMessage env lg acc m"] by blast
  show ?case
    by (rule exI[of _ "n1 @ n2"]) (use n1 n2 in \<open>simp add: source_tool_uses_def\<close>)
qed

lemma calls_of_normalize: "calls_of (map (normalizeMessage lg) msgs) = calls_of msgs"
  by (induction msgs) (auto simp: calls_of_def normalizeMessage_def)

lemma convertToolCalls_uses:
  "concat (map tool_use_of (fst (convertToolCalls env lg calls))) =
     map call_key (filter (\<lambda>tc. call_type tc = ''function'') calls)"
  by (induction calls) (auto simp: call_key_def Let_def split: prod.splits)

lemma response_of_message:
  "response_tool_uses
     (fst (convertOpenAIToAnthropicResponse env (completion_of cid m fr u) model lg rid)) =
   map call_key (filter (\<lambda>tc. call_type tc = ''function'')
     (case om_tool_calls m of None \<Rightarrow> [] | Some tcs \<Rightarrow> tcs))"
proof (cases "om_tool_calls m")
  case None
  then show ?thesis
    by (simp add: convertOpenAIToAnthropicResponse_def completion_of_def response_tool_uses_def
          Let_def)
next
  case (Some tcs)
  obtain blocks l where b: "convertToolCalls env lg tcs = (blocks, l)"
    by (cases "convertToolCalls env lg tcs")
  have u: "concat (map tool_use_of blocks) =
      map call_key (filter (\<lambda>tc. call_type tc = ''function'') tcs)"
    using convertToolCalls_uses[of env lg tcs] b by simp
  show ?thesis
    using Some b u
    by (auto simp: convertOpenAIToAnthropicResponse_def completion_of_def response_tool_uses_def
          Let_def)
qed

lemma concat_response_calls:
  "concat (map (\<lambda>m. map call_key (filter (\<lambda>tc. call_type tc = ''function'')
       (case om_tool_calls m of None \<Rightarrow> [] | Some tcs \<Rightarrow> tcs))) msgs) =
   map call_key (filter (\<lambda>tc. call_type tc = ''function'') (calls_of msgs))"
  by (induction msgs) (auto simp: calls_of_def)

text \<open>
  Claim C8: translate the request; give each target message back as the first choice of
  a completion, with any finish reason, id and usage; translate each such completion.
  The ids and names of the tool-use blocks of the responses, in order, are the ids and
  names of the tool-use blocks of the assistant messages of the request, in order.
\<close>

theorem C8_tool_round_trip:
  "concat (map (\<lambda>m. response_tool_uses
       (fst (convertOpenAIToAnthropicResponse env (completion_of cid m finishReason usage)
               model lg requestId)))
     (fst (convertAnthropicToOpenAIMessages env msgs sys lg))) =
   source_tool_uses msgs"
proof -
  let ?out = "fst (convertAnthropicToOpenAIMessages env msgs sys lg)"
  obtain new where new: "calls_of ?out = new" "list_all (\<lambda>tc. call_type tc = ''function'') new"
    "map call_key new = source_tool_uses msgs"
    using foldl_convertMessage_calls[where env=env and lg=lg and msgs=msgs and
        acc="(if systemText sys \<noteq> [] then [plain_message System_role (systemText sys)] else [],
          systemWarnings lg sys)"]
    by (auto simp: convert_fst calls_of_normalize)
  have "filter (\<lambda>tc. call_type tc = ''function'') new = new"
    using new(2) by (simp add: list_all_iff)
  then show ?thesis
    by (simp add: response_of_message concat_response_calls new)
qed

end
